theory Spec2Isabelle
  imports Main "HOL-Library.Word"
begin

unbundle bit_operations_syntax

section \<open>iaviewer: a shallow embedding of cmd/iaviewer/main.go\<close>

text \<open>
  Go's \<^verbatim>\<open>[]byte\<close> and \<^verbatim>\<open>string\<close> are both sequences of 8-bit bytes; Isabelle's
  \<^typ>\<open>char\<close> is an 8-bit byte, so both are modelled as \<^typ>\<open>string\<close>. The conversions
  \<^verbatim>\<open>string(id)\<close> and \<^verbatim>\<open>[]byte(s)\<close> copy the bytes and are the identity here. The value of
  a byte is read with \<^term>\<open>of_char\<close>.
\<close>

type_synonym bytes = string

text \<open>
  Effects are values. A function that prints returns the text it printed; a function that
  can panic returns the panic beside what it printed before; \<^verbatim>\<open>os.Exit\<close> is an outcome of
  \<^verbatim>\<open>main\<close>. The file system is a parameter: the answer of \<^verbatim>\<open>dbm.NewRocksDB\<close> for a name and
  a directory. The tree engine (package iavl) and the store (package tm-db) are not part of
  main.go; the model keeps of them what main.go observes: the versions committed under a
  key prefix, each with its ordered entries and its height.
\<close>

subsection \<open>Library functions used by the weave-key codec\<close>

text \<open>\<^verbatim>\<open>encoding/hex\<close>: \<^verbatim>\<open>const hextable = "0123456789abcdef"\<close>; \<^verbatim>\<open>EncodeToString\<close> writes
  \<^verbatim>\<open>hextable[v>>4]\<close> and \<^verbatim>\<open>hextable[v&0x0f]\<close> for every byte \<^verbatim>\<open>v\<close>.\<close>

definition hextable :: string where
  "hextable = ''0123456789abcdef''"

fun EncodeToString :: "bytes \<Rightarrow> string" where
  "EncodeToString [] = []"
| "EncodeToString (v # src) =
     hextable ! (of_char v div 16) # hextable ! (of_char v mod 16) # EncodeToString src"

text \<open>\<^verbatim>\<open>strings.ToUpper\<close> on ASCII letters: \<^verbatim>\<open>'a'..'z'\<close> move to \<^verbatim>\<open>'A'..'Z'\<close>, every other
  ASCII byte stays. (Bytes from 0x80 on are subject to Unicode case mapping in Go; the
  program only applies \<^verbatim>\<open>ToUpper\<close> to the output of \<^verbatim>\<open>EncodeToString\<close>, which has none, see
  \<open>EncodeToString_alphabet\<close>; the model leaves them unchanged.)\<close>

definition upper_byte :: "char \<Rightarrow> char" where
  "upper_byte c =
     (if (97::nat) \<le> of_char c \<and> of_char c \<le> (122::nat)
      then ''ABCDEFGHIJKLMNOPQRSTUVWXYZ'' ! (of_char c - 97) else c)"

definition ToUpper :: "string \<Rightarrow> string" where
  "ToUpper s = map upper_byte s"

text \<open>\<^verbatim>\<open>bytes.IndexRune(s, r)\<close> for an ASCII rune is \<^verbatim>\<open>bytes.IndexByte\<close>: the index of the
  first occurrence, or -1.\<close>

fun IndexByte :: "bytes \<Rightarrow> char \<Rightarrow> int" where
  "IndexByte [] c = -1"
| "IndexByte (b # s) c =
     (if b = c then 0 else (let i = IndexByte s c in if i = -1 then -1 else i + 1))"

subsection \<open>Formatting (package fmt)\<close>

text \<open>\<^verbatim>\<open>%d\<close> of an integer: decimal digits, with a leading minus sign for a negative value.\<close>

fun dec_nat :: "nat \<Rightarrow> string" where
  "dec_nat n =
     (if n < 10 then [''0123456789'' ! n]
      else dec_nat (n div 10) @ [''0123456789'' ! (n mod 10)])"

declare dec_nat.simps [simp del]

definition fmt_d :: "int \<Rightarrow> string" where
  "fmt_d i = (if i < 0 then ''-'' @ dec_nat (nat (- i)) else dec_nat (nat i))"

text \<open>\<^verbatim>\<open>%X\<close> of a byte array or slice: two digits per byte from
  \<^verbatim>\<open>udigits = "0123456789ABCDEFX"\<close>.\<close>

definition udigits :: string where
  "udigits = ''0123456789ABCDEFX''"

fun fmt_X :: "bytes \<Rightarrow> string" where
  "fmt_X [] = []"
| "fmt_X (c # s) = udigits ! (of_char c div 16) # udigits ! (of_char c mod 16) # fmt_X s"

subsection \<open>SHA-256 (package crypto/sha256, FIPS 180-4)\<close>

type_synonym uint32 = "32 word"

text \<open>The round constants and the initial hash value, in decimal.\<close>

definition K256 :: "uint32 list" where
  "K256 =
     [
      1116352408, 1899447441, 3049323471, 3921009573, 961987163, 1508970993,
      2453635748, 2870763221, 3624381080, 310598401, 607225278, 1426881987,
      1925078388, 2162078206, 2614888103, 3248222580, 3835390401, 4022224774,
      264347078, 604807628, 770255983, 1249150122, 1555081692, 1996064986,
      2554220882, 2821834349, 2952996808, 3210313671, 3336571891, 3584528711,
      113926993, 338241895, 666307205, 773529912, 1294757372, 1396182291,
      1695183700, 1986661051, 2177026350, 2456956037, 2730485921, 2820302411,
      3259730800, 3345764771, 3516065817, 3600352804, 4094571909, 275423344,
      430227734, 506948616, 659060556, 883997877, 958139571, 1322822218,
      1537002063, 1747873779, 1955562222, 2024104815, 2227730452, 2361852424,
      2428436474, 2756734187, 3204031479, 3329325298
     ]"

definition init256 :: "uint32 list" where
  "init256 =
     [
      1779033703, 3144134277, 1013904242, 2773480762,
      1359893119, 2600822924, 528734635, 1541459225
     ]"

definition rotr :: "nat \<Rightarrow> uint32 \<Rightarrow> uint32" where
  "rotr n x = drop_bit n x OR push_bit (32 - n) x"

text \<open>The message schedule grows by one word at a time, from 16 words to 64.\<close>

definition schedule_step :: "uint32 list \<Rightarrow> uint32 list" where
  "schedule_step w =
     (let i = length w;
          v1 = w ! (i - 2);
          t1 = rotr 17 v1 XOR rotr 19 v1 XOR drop_bit 10 v1;
          v2 = w ! (i - 15);
          t2 = rotr 7 v2 XOR rotr 18 v2 XOR drop_bit 3 v2
      in w @ [t1 + w ! (i - 7) + t2 + w ! (i - 16)])"

definition round256 :: "uint32 list \<Rightarrow> uint32 \<times> uint32 \<Rightarrow> uint32 list" where
  "round256 s kw =
     (case s of
        [a, b, c, d, e, f, g, h] \<Rightarrow>
          (let t1 = h + (rotr 6 e XOR rotr 11 e XOR rotr 25 e) + ((e AND f) XOR (NOT e AND g))
                      + fst kw + snd kw;
               t2 = (rotr 2 a XOR rotr 13 a XOR rotr 22 a)
                      + ((a AND b) XOR (a AND c) XOR (b AND c))
           in [t1 + t2, a, b, c, d + t1, e, f, g])
      | _ \<Rightarrow> s)"

fun be_words :: "bytes \<Rightarrow> uint32 list" where
  "be_words (b0 # b1 # b2 # b3 # p) =
     (push_bit 24 (of_nat (of_char b0)) OR push_bit 16 (of_nat (of_char b1))
        OR push_bit 8 (of_nat (of_char b2)) OR of_nat (of_char b3)) # be_words p"
| "be_words _ = []"

definition block256 :: "uint32 list \<Rightarrow> bytes \<Rightarrow> uint32 list" where
  "block256 h p =
     (let w = (schedule_step ^^ 48) (be_words p)
      in map2 (+) h (foldl round256 h (zip K256 w)))"

primrec blocks256 :: "nat \<Rightarrow> uint32 list \<Rightarrow> bytes \<Rightarrow> uint32 list" where
  "blocks256 0 h p = h"
| "blocks256 (Suc n) h p = blocks256 n (block256 h (take 64 p)) (drop 64 p)"

text \<open>\<open>be_bytes k n\<close>: the \<open>k\<close> low bytes of \<open>n\<close>, most significant first.\<close>

definition be_bytes :: "nat \<Rightarrow> nat \<Rightarrow> bytes" where
  "be_bytes k n = map (\<lambda>i. char_of (n div 256 ^ i)) (rev [0..<k])"

text \<open>Padding: the byte 0x80, zero bytes up to 56 modulo 64, and the length in bits as a
  64-bit big-endian number.\<close>

definition sha256_pad :: "bytes \<Rightarrow> bytes" where
  "sha256_pad msg =
     (let r = length msg mod 64;
          z = (if r < 56 then 56 - r else 64 + 56 - r) - 1
      in msg @ [CHR 0x80] @ replicate z (CHR 0x00) @ be_bytes 8 (8 * length msg mod 2 ^ 64))"

definition Sum256 :: "bytes \<Rightarrow> bytes" where
  "Sum256 msg =
     (let p = sha256_pad msg
      in concat (map (\<lambda>w. be_bytes 4 (unat w)) (blocks256 (length p div 64) init256 p)))"

subsection \<open>Machine integers\<close>

text \<open>\<^verbatim>\<open>int64\<close>, and \<^verbatim>\<open>int\<close> at its width on 64-bit targets: mathematical integers with
  the two's-complement wrap-around written out. Division truncates towards zero and panics
  on a zero divisor (\<open>checked_quo\<close>); \<open>quo\<close> and \<open>rem\<close> are the operations once the divisor is
  known not to be zero.\<close>

definition wrap64 :: "int \<Rightarrow> int" where
  "wrap64 x = (x + 2 ^ 63) mod 2 ^ 64 - 2 ^ 63"

definition quo :: "int \<Rightarrow> int \<Rightarrow> int" where
  "quo a b = wrap64 (sgn a * sgn b * (\<bar>a\<bar> div \<bar>b\<bar>))"

definition rem :: "int \<Rightarrow> int \<Rightarrow> int" where
  "rem a b = sgn a * (\<bar>a\<bar> mod \<bar>b\<bar>)"

datatype error =
    Errorf string
  | ErrSyntax string
  | ErrRange string
  | InvalidByteError char
  | ErrLength
  | LibError string

datatype panic =
    DivideByZero
  | IndexOutOfRange int int
  | NilDereference
  | PanicError error

definition checked_quo :: "int \<Rightarrow> int \<Rightarrow> panic + int" where
  "checked_quo a b = (if b = 0 then Inl DivideByZero else Inr (quo a b))"

text \<open>\<^verbatim>\<open>Max\<close> of main.go.\<close>

definition Max_go :: "int \<Rightarrow> int \<Rightarrow> int" where
  "Max_go x y = (if x > y then x else y)"

subsection \<open>The weave-key codec\<close>

text \<open>\<^verbatim>\<open>encodeID\<close>: the loop runs over the bytes of \<^verbatim>\<open>id\<close>; at the first byte with
  \<^verbatim>\<open>b < 0x20 || b >= 0x80\<close> it returns the upper-cased hex of the whole of \<^verbatim>\<open>id\<close>; when
  the loop ends it returns \<^verbatim>\<open>string(id)\<close>.\<close>

fun encodeID_loop :: "bytes \<Rightarrow> bytes \<Rightarrow> string" where
  "encodeID_loop ident [] = ident"
| "encodeID_loop ident (b # rest) =
     (if of_char b < (0x20::nat) \<or> of_char b \<ge> (0x80::nat)
      then ToUpper (EncodeToString ident)
      else encodeID_loop ident rest)"

definition encodeID :: "bytes \<Rightarrow> string" where
  "encodeID ident = encodeID_loop ident ident"

text \<open>\<^verbatim>\<open>parseWeaveKey\<close>: \<^verbatim>\<open>key[:cut]\<close> and \<^verbatim>\<open>key[cut+1:]\<close> around the first \<^verbatim>\<open>':'\<close>;
  \<^verbatim>\<open>fmt.Sprintf("%s:%s", a, b)\<close> is \<open>a @ '':'' @ b\<close>.\<close>

definition parseWeaveKey :: "bytes \<Rightarrow> string" where
  "parseWeaveKey key =
     (let cut = IndexByte key CHR '':'' in
      if cut = -1 then encodeID key
      else (let prefix = take (nat cut) key;
                ident = drop (nat (cut + 1)) key
            in encodeID prefix @ '':'' @ encodeID ident))"

subsection \<open>The store and the tree engine\<close>

text \<open>A snapshot is the ordered list of the (key, value) pairs committed at one version,
  with the tree's height; a tree holds the snapshot of every committed version and the
  one currently loaded.\<close>

type_synonym entry = "bytes \<times> bytes"

record Snapshot =
  entries :: "entry list"
  height :: int

record MutableTree =
  versions :: "(int \<times> Snapshot) list"
  working :: Snapshot

text \<open>A store handle (\<^verbatim>\<open>dbm.DB\<close>), seen through the tree engine: under every key prefix
  either the versions of the tree persisted there, or an error when the data cannot be
  read.\<close>

record DB =
  trees :: "bytes \<Rightarrow> error + (int \<times> Snapshot) list"

text \<open>\<^verbatim>\<open>dbm.NewRocksDB(name, dir)\<close> is the file system's answer, a parameter of the model.\<close>

type_synonym rocksdb = "string \<Rightarrow> string \<Rightarrow> error + DB"

text \<open>\<^verbatim>\<open>dbm.NewPrefixDB(db, prefix)\<close>: every key of the view is the key behind it with
  \<open>prefix\<close> in front.\<close>

definition NewPrefixDB :: "DB \<Rightarrow> bytes \<Rightarrow> DB" where
  "NewPrefixDB db prefix = db\<lparr>trees := (\<lambda>p. trees db (prefix @ p))\<rparr>"

text \<open>Modelled from the spec: \<^verbatim>\<open>iavl.NewMutableTree\<close>, whose code is not among the sources.
  The tree facade over a store handle; it fails when the underlying data is unreadable.
  Nothing is loaded yet.\<close>

definition NewMutableTree :: "DB \<Rightarrow> int \<Rightarrow> error + MutableTree" where
  "NewMutableTree db cacheSize =
     (case trees db [] of
        Inl err \<Rightarrow> Inl err
      | Inr vs \<Rightarrow> Inr \<lparr>versions = vs, working = \<lparr>entries = [], height = 0\<rparr>\<rparr>)"

text \<open>Modelled from the spec: \<^verbatim>\<open>MutableTree.LoadVersion\<close>, whose code is not among the
  sources. "Version 0 is a sentinel meaning load latest available version. Loading a
  version that does not exist fails." It reports the version actually loaded; the spec
  does not say what is reported on failure, the model reports 0.\<close>

definition latest_version :: "(int \<times> Snapshot) list \<Rightarrow> int" where
  "latest_version vs = Max (set (map fst vs))"

definition LoadVersion :: "MutableTree \<Rightarrow> int \<Rightarrow> MutableTree \<times> int \<times> error option" where
  "LoadVersion tree targetVersion =
     (let v = (if targetVersion = 0 \<and> versions tree \<noteq> [] then latest_version (versions tree)
               else targetVersion)
      in case map_of (versions tree) v of
           None \<Rightarrow> (tree, 0, Some (LibError ''version does not exist''))
         | Some s \<Rightarrow> (tree\<lparr>working := s\<rparr>, v, None))"

text \<open>Modelled from the spec: \<^verbatim>\<open>Size\<close>, \<^verbatim>\<open>Height\<close> and \<^verbatim>\<open>Iterate\<close> of the tree, whose code
  is not among the sources. \<^verbatim>\<open>Size\<close> is the total entry count of the loaded snapshot;
  \<^verbatim>\<open>Iterate\<close> visits its entries in order and stops when the callback returns true.\<close>

definition Size :: "MutableTree \<Rightarrow> int" where
  "Size tree = int (length (entries (working tree)))"

definition Height :: "MutableTree \<Rightarrow> int" where
  "Height tree = height (working tree)"

fun iterate_entries :: "(bytes \<Rightarrow> bytes \<Rightarrow> 's \<Rightarrow> bool \<times> 's) \<Rightarrow> entry list \<Rightarrow> 's \<Rightarrow> 's" where
  "iterate_entries fn [] s = s"
| "iterate_entries fn (e # es) s =
     (case fn (fst e) (snd e) s of
        (stop, s') \<Rightarrow> if stop then s' else iterate_entries fn es s')"

definition Iterate :: "MutableTree \<Rightarrow> (bytes \<Rightarrow> bytes \<Rightarrow> 's \<Rightarrow> bool \<times> 's) \<Rightarrow> 's \<Rightarrow> 's" where
  "Iterate tree fn s = iterate_entries fn (entries (working tree)) s"

subsection \<open>OpenDB and ReadTree\<close>

definition DefaultCacheSize :: int where
  "DefaultCacheSize = 10000"

definition HasSuffix :: "string \<Rightarrow> string \<Rightarrow> bool" where
  "HasSuffix s suffix \<longleftrightarrow>
     length s \<ge> length suffix \<and> drop (length s - length suffix) s = suffix"

text \<open>\<^verbatim>\<open>strings.LastIndex(s, "/")\<close>: the index of the last occurrence of the byte, or -1.\<close>

fun LastIndexByte :: "string \<Rightarrow> char \<Rightarrow> int" where
  "LastIndexByte [] c = -1"
| "LastIndexByte (b # s) c =
     (let i = LastIndexByte s c in if i \<noteq> -1 then i + 1 else if b = c then 0 else -1)"

text \<open>\<^verbatim>\<open>OpenDB\<close> returns the handle or the error; the second component lists the calls of
  \<^verbatim>\<open>dbm.NewRocksDB\<close> it made, as (name, dir).\<close>

definition OpenDB :: "rocksdb \<Rightarrow> string \<Rightarrow> (error + DB) \<times> (string \<times> string) list" where
  "OpenDB NewRocksDB dir0 =
     (case (if HasSuffix dir0 ''.db'' then Some (take (length dir0 - 3) dir0)
            else if HasSuffix dir0 ''.db/'' then Some (take (length dir0 - 4) dir0)
            else None) of
        None \<Rightarrow> (Inl (Errorf ''database directory must end with .db''), [])
      | Some dir \<Rightarrow>
          (let cut = LastIndexByte dir CHR ''/'' in
           if cut = -1 then (Inl (Errorf (''cannot cut paths on '' @ dir)), [])
           else (let name = drop (nat (cut + 1)) dir
                 in (NewRocksDB name (take (nat cut) dir), [(name, take (nat cut) dir)]))))"

text \<open>\<^verbatim>\<open>ReadTree\<close> returns what it printed on standard output, the tree and the error (Go
  returns both; the tree of the last \<^verbatim>\<open>return tree, err\<close> is not nil even when \<open>err\<close> is
  set).\<close>

definition ReadTree ::
  "rocksdb \<Rightarrow> string \<Rightarrow> int \<Rightarrow> bytes \<Rightarrow> string \<times> MutableTree option \<times> error option" where
  "ReadTree NewRocksDB dir version prefix =
     (case fst (OpenDB NewRocksDB dir) of
        Inl err \<Rightarrow> ([], None, Some err)
      | Inr db0 \<Rightarrow>
          (let db = (if length prefix \<noteq> 0 then NewPrefixDB db0 prefix else db0) in
           case NewMutableTree db DefaultCacheSize of
             Inl err \<Rightarrow> ([], None, Some err)
           | Inr tree0 \<Rightarrow>
               (case LoadVersion tree0 version of
                  (tree, ver, err) \<Rightarrow>
                    (''Got version: '' @ fmt_d ver @ ''\<newline>'', Some tree, err))))"

subsection \<open>Traversal and reporting\<close>

definition PrintKeys_visit :: "bytes \<Rightarrow> bytes \<Rightarrow> string \<Rightarrow> bool \<times> string" where
  "PrintKeys_visit key val out =
     (let printKey = parseWeaveKey key;
          digest = Sum256 val
      in (False, out @ ''  '' @ printKey @ ''\<newline>    '' @ fmt_X digest @ ''\<newline>''))"

definition PrintKeys :: "MutableTree \<Rightarrow> string" where
  "PrintKeys tree =
     Iterate tree PrintKeys_visit ''Printing all keys with hashed values (to detect diff)\<newline>''"

record stats =
  printed :: string
  count :: int
  keySizeTotal :: int
  valueSizeTotal :: int
  keyMaxSize :: int
  valueMaxSize :: int

text \<open>The callback of \<^verbatim>\<open>PrintKeysWithValueSize\<close>. Its \<^verbatim>\<open>Printf\<close> has two verbs and three
  operands: package fmt appends \<^verbatim>\<open>%!(EXTRA int=<valueSize>)\<close> for the operand that no verb
  consumes. The progress test is \<^verbatim>\<open>tree.Size() >= 100 && count%(tree.Size()/100) == 0\<close>;
  \<^verbatim>\<open>&&\<close> evaluates the remainder only when the size is at least 100, so its divisor is
  not zero.\<close>

definition PrintKeysWithValueSize_visit ::
  "MutableTree \<Rightarrow> bytes \<Rightarrow> bytes \<Rightarrow> stats \<Rightarrow> bool \<times> stats" where
  "PrintKeysWithValueSize_visit tree key val st =
     (let printKey = parseWeaveKey key;
          digest = Sum256 val;
          valueSize = int (length val);
          out1 = printed st @ ''  '' @ printKey @ ''\<newline>    '' @ fmt_X digest @ ''\<newline>''
                   @ ''%!(EXTRA int='' @ fmt_d valueSize @ '')'';
          count1 = wrap64 (count st + 1);
          keySizeTotal1 = wrap64 (keySizeTotal st + int (length key));
          valueSizeTotal1 = wrap64 (valueSizeTotal st + int (length val));
          keyMaxSize1 = Max_go (keyMaxSize st) (int (length key));
          valueMaxSize1 = Max_go (valueMaxSize st) (int (length val));
          out2 = (if Size tree \<ge> 100 \<and> rem count1 (quo (Size tree) 100) = 0
                  then out1 @ ''progress:  '' @ fmt_d (quo (wrap64 (count1 * 100)) (Size tree))
                         @ ''%\<newline>''
                  else out1)
      in (False, \<lparr>printed = out2, count = count1, keySizeTotal = keySizeTotal1,
                  valueSizeTotal = valueSizeTotal1, keyMaxSize = keyMaxSize1,
                  valueMaxSize = valueMaxSize1\<rparr>))"

text \<open>\<^verbatim>\<open>PrintKeysWithValueSize\<close> returns what it printed and the panic that ended it, if
  any. The operands of the second \<^verbatim>\<open>Printf\<close> are evaluated before it prints, so a panic
  in a division comes after the line of totals and before the line of averages.\<close>

definition PrintKeysWithValueSize :: "MutableTree \<Rightarrow> string \<times> panic option" where
  "PrintKeysWithValueSize tree =
     (let st = Iterate tree (PrintKeysWithValueSize_visit tree)
                 \<lparr>printed = ''Printing all keys with hashed values (to detect diff)\<newline>'',
                  count = 0, keySizeTotal = 0, valueSizeTotal = 0,
                  keyMaxSize = 0, valueMaxSize = 0\<rparr>;
          out1 = printed st @ fmt_d (count st) @ '' keys, keySizeTotal: ''
                   @ fmt_d (keySizeTotal st) @ '', valueSizeTotal: ''
                   @ fmt_d (valueSizeTotal st) @ ''\<newline>''
      in case checked_quo (keySizeTotal st) (count st) of
           Inl p \<Rightarrow> (out1, Some p)
         | Inr avgKey \<Rightarrow>
             (case checked_quo (valueSizeTotal st) (count st) of
                Inl p \<Rightarrow> (out1, Some p)
              | Inr avgValue \<Rightarrow>
                  (out1 @ ''avg key size:'' @ fmt_d avgKey @ '', avg value size:''
                     @ fmt_d avgValue @ ''\<newline>''
                     @ ''max key size:'' @ fmt_d (keyMaxSize st) @ '', max value size:''
                     @ fmt_d (valueMaxSize st) @ ''\<newline>'', None)))"

subsection \<open>The statistics aggregator\<close>

text \<open>Standard error is kept as a list of pieces: literal text, and the \<^verbatim>\<open>Error()\<close> text of
  an error value, which stays symbolic.\<close>

datatype chunk = Text string | ErrorText error

record console =
  stdout :: string
  stderr :: "chunk list"

definition modules :: "string list" where
  "modules =
     [''capability'', ''params'', ''transfer'', ''staking'', ''slashing'', ''distribution'',
      ''feegrant'', ''upgrade'', ''authz'', ''evidence'', ''feemarket'', ''gravity'', ''gov'',
      ''cronos'', ''ibc'', ''bank'', ''mint'', ''acc'', ''evm'']"

text \<open>The loop of \<^verbatim>\<open>PrintStatistics\<close> from index \<open>idx\<close> on, over the modules still to visit.
  A panic inside \<^verbatim>\<open>PrintKeysWithValueSize\<close> ends the run, and so would \<^verbatim>\<open>tree.Size()\<close> on a nil
  tree.\<close>

fun PrintStatistics_loop ::
  "rocksdb \<Rightarrow> string \<Rightarrow> int \<Rightarrow> int \<Rightarrow> string list \<Rightarrow> console \<Rightarrow> console \<times> panic option" where
  "PrintStatistics_loop NewRocksDB dbpath version idx [] c = (c, None)"
| "PrintStatistics_loop NewRocksDB dbpath version idx (m # rest) c =
     (let prefix = ''s/k:'' @ m @ ''/'' in
      case ReadTree NewRocksDB dbpath version prefix of
        (shown, tree, err) \<Rightarrow>
          (let c1 = c\<lparr>stdout := stdout c @ shown\<rparr> in
           case err of
             Some e \<Rightarrow>
               PrintStatistics_loop NewRocksDB dbpath version (idx + 1) rest
                 (c1\<lparr>stderr := stderr c1 @
                    [Text ''Error reading '', Text m, Text '' data: '', ErrorText e,
                     Text ''\<newline>'']\<rparr>)
           | None \<Rightarrow>
               (let c2 = c1\<lparr>stdout := stdout c1 @ ''iterating over '' @ m @ ''  (''
                            @ fmt_d (idx + 1) @ ''/'' @ fmt_d (int (length modules))
                            @ '')\<newline>''\<rparr>
                in case tree of
                     None \<Rightarrow> (c2, Some NilDereference)
                   | Some t \<Rightarrow>
                       (let c3 = c2\<lparr>stdout := stdout c2 @ ''tree size:'' @ fmt_d (Size t)
                                    @ '' height:'' @ fmt_d (Height t) @ ''\<newline>''\<rparr>
                        in case PrintKeysWithValueSize t of
                             (body, Some p) \<Rightarrow> (c3\<lparr>stdout := stdout c3 @ body\<rparr>, Some p)
                           | (body, None) \<Rightarrow>
                               PrintStatistics_loop NewRocksDB dbpath version (idx + 1) rest
                                 (c3\<lparr>stdout := stdout c3 @ body @ ''\<newline>''\<rparr>)))))"

definition PrintStatistics :: "rocksdb \<Rightarrow> string \<Rightarrow> int \<Rightarrow> console \<times> panic option" where
  "PrintStatistics NewRocksDB dbpath version =
     PrintStatistics_loop NewRocksDB dbpath version 0 modules \<lparr>stdout = [], stderr = []\<rparr>"

subsection \<open>The command line\<close>

text \<open>\<^verbatim>\<open>strconv.Atoi\<close>: an optional sign and decimal digits. The digits are read left to
  right as \<^verbatim>\<open>ParseUint\<close> does: a byte that is no digit is a syntax error, a value that
  leaves 64 bits a range error, whichever comes first; the signed value must fit
  \<^verbatim>\<open>int\<close>.\<close>

definition is_digit :: "char \<Rightarrow> bool" where
  "is_digit c \<longleftrightarrow> (48::nat) \<le> of_char c \<and> of_char c \<le> (57::nat)"

fun ParseUint_loop :: "string \<Rightarrow> nat \<Rightarrow> string \<Rightarrow> error + nat" where
  "ParseUint_loop s0 n [] = Inr n"
| "ParseUint_loop s0 n (c # cs) =
     (if \<not> is_digit c then Inl (ErrSyntax s0)
      else if n \<ge> (2 ^ 64 - 1) div 10 + 1 then Inl (ErrRange s0)
      else (let n1 = n * 10 + (of_char c - 48) in
            if n1 > 2 ^ 64 - 1 then Inl (ErrRange s0) else ParseUint_loop s0 n1 cs))"

definition Atoi :: "string \<Rightarrow> error + int" where
  "Atoi s =
     (if s = [] then Inl (ErrSyntax s)
      else (let neg = (hd s = CHR ''-'');
                ds = (if hd s = CHR ''+'' \<or> hd s = CHR ''-'' then tl s else s)
            in if ds = [] then Inl (ErrSyntax s)
               else (case ParseUint_loop s 0 ds of
                       Inl err \<Rightarrow> Inl err
                     | Inr un \<Rightarrow>
                         if \<not> neg \<and> un \<ge> 2 ^ 63 then Inl (ErrRange s)
                         else if neg \<and> un > 2 ^ 63 then Inl (ErrRange s)
                         else Inr (if neg then - int un else int un))))"

text \<open>\<^verbatim>\<open>hex.DecodeString\<close>: two hex digits per byte; the first byte that is no hex digit is
  an \<^verbatim>\<open>InvalidByteError\<close>, an odd length is \<^verbatim>\<open>ErrLength\<close>.\<close>

definition fromHexChar :: "char \<Rightarrow> nat option" where
  "fromHexChar c =
     (let n = (of_char c :: nat) in
      if 48 \<le> n \<and> n \<le> 57 then Some (n - 48)
      else if 97 \<le> n \<and> n \<le> 102 then Some (n - 97 + 10)
      else if 65 \<le> n \<and> n \<le> 70 then Some (n - 65 + 10)
      else None)"

fun DecodeString :: "string \<Rightarrow> error + bytes" where
  "DecodeString [] = Inr []"
| "DecodeString [p] =
     (case fromHexChar p of None \<Rightarrow> Inl (InvalidByteError p) | Some a \<Rightarrow> Inl ErrLength)"
| "DecodeString (p # q # src) =
     (case fromHexChar p of
        None \<Rightarrow> Inl (InvalidByteError p)
      | Some a \<Rightarrow>
          (case fromHexChar q of
             None \<Rightarrow> Inl (InvalidByteError q)
           | Some b \<Rightarrow>
               (case DecodeString src of
                  Inl err \<Rightarrow> Inl err
                | Inr dst \<Rightarrow> Inr (char_of (a * 16 + b) # dst))))"

text \<open>What \<^verbatim>\<open>main\<close> does after its own checks: the function it calls, with the operands
  it passes. The tree is the pointer \<^verbatim>\<open>ReadTree\<close> returned.\<close>

datatype action =
    CallData "MutableTree option"
  | CallPrintShape "MutableTree option"
  | CallPrintVersions "MutableTree option"
  | CallPrintBalance "MutableTree option" bytes
  | CallPrintAccount "MutableTree option" bytes
  | CallPrintStatistics string int

datatype outcome = Exit int | Panicked panic | Calls action

definition usage :: "chunk list" where
  "usage =
     [Text ''Usage: iaviewer <data|shape|versions> <leveldb dir> <prefix> [version number]\<newline>'',
      Text ''<prefix> is the prefix of db, and the iavl tree of different modules in cosmos-sdk uses \<newline>'',
      Text (''different <prefix> to identify, just like '' @ [CHR 0x22] @ ''s/k:gov/'' @ [CHR 0x22]
            @ '' represents the prefix of gov module\<newline>'')]"

text \<open>The \<^verbatim>\<open>switch\<close> of \<^verbatim>\<open>main\<close>. \<^verbatim>\<open>args[4]\<close> is read with no test of \<^verbatim>\<open>len(args)\<close>: with
  fewer than five arguments the index expression panics.\<close>

definition address_arg :: "string list \<Rightarrow> panic + bytes" where
  "address_arg args =
     (if length args \<le> 4 then Inl (IndexOutOfRange 4 (int (length args)))
      else (case DecodeString (args ! 4) of
              Inl err \<Rightarrow> Inl (PanicError err)
            | Inr addr \<Rightarrow> Inr addr))"

definition dispatch :: "string list \<Rightarrow> MutableTree option \<Rightarrow> int \<Rightarrow> outcome" where
  "dispatch args tree version =
     (if args ! 0 = ''data'' then Calls (CallData tree)
      else if args ! 0 = ''shape'' then Calls (CallPrintShape tree)
      else if args ! 0 = ''versions'' then Calls (CallPrintVersions tree)
      else if args ! 0 = ''balance'' then
        (case address_arg args of
           Inl p \<Rightarrow> Panicked p
         | Inr addr \<Rightarrow> Calls (CallPrintBalance tree addr))
      else if args ! 0 = ''nonce'' then
        (case address_arg args of
           Inl p \<Rightarrow> Panicked p
         | Inr addr \<Rightarrow> Calls (CallPrintAccount tree addr))
      else Calls (CallPrintStatistics (args ! 1) version))"

definition main_go :: "rocksdb \<Rightarrow> string list \<Rightarrow> console \<times> outcome" where
  "main_go NewRocksDB args =
     (if length args < 3 \<or>
         (args ! 0 \<noteq> ''data'' \<and> args ! 0 \<noteq> ''shape'' \<and> args ! 0 \<noteq> ''versions'' \<and>
          args ! 0 \<noteq> ''balance'' \<and> args ! 0 \<noteq> ''nonce'' \<and> args ! 0 \<noteq> ''stastistics'')
      then (\<lparr>stdout = [], stderr = usage\<rparr>, Exit 1)
      else
        (case (if length args \<ge> 4 then Atoi (args ! 3) else Inr 0) of
           Inl err \<Rightarrow>
             (\<lparr>stdout = [],
               stderr = [Text ''Invalid version number: '', ErrorText err, Text ''\<newline>'']\<rparr>,
              Exit 1)
         | Inr version \<Rightarrow>
             (case (if args ! 0 \<noteq> ''stastistics''
                    then ReadTree NewRocksDB (args ! 1) version (args ! 2)
                    else ([], None, None)) of
                (shown, tree, Some err) \<Rightarrow>
                  (\<lparr>stdout = shown,
                    stderr = [Text ''Error reading data: '', ErrorText err, Text ''\<newline>'']\<rparr>,
                   Exit 1)
              | (shown, tree, None) \<Rightarrow>
                  (\<lparr>stdout = shown, stderr = []\<rparr>, dispatch args tree version))))"

subsection \<open>The spec's words for the codec\<close>

text \<open>The spec's printable-ASCII range is 0x20 to 0x7F.\<close>

definition printable_ascii :: "char \<Rightarrow> bool" where
  "printable_ascii b \<longleftrightarrow> (0x20::nat) \<le> of_char b \<and> of_char b \<le> (0x7F::nat)"

text \<open>Uppercase hexadecimal of a byte string: two digits per byte, high nibble first.\<close>

definition upper_hex :: "bytes \<Rightarrow> string" where
  "upper_hex bs =
     concat (map (\<lambda>v. [''0123456789ABCDEF'' ! (of_char v div 16),
                        ''0123456789ABCDEF'' ! (of_char v mod 16)]) bs)"

subsection \<open>The traversal output, in the spec's words and in closed form\<close>

text \<open>The line pair of digest mode: the rendered key, then the uppercase-hex SHA-256
  digest of the value.\<close>

definition line_pair :: "bytes \<Rightarrow> bytes \<Rightarrow> string" where
  "line_pair key val =
     ''  '' @ parseWeaveKey key @ ''\<newline>'' @ ''    '' @ upper_hex (Sum256 val) @ ''\<newline>''"

text \<open>What package fmt prints for the operand without a verb.\<close>

definition extra_operand :: "bytes \<Rightarrow> string" where
  "extra_operand val = ''%!(EXTRA int='' @ fmt_d (int (length val)) @ '')''"

definition progress_line :: "int \<Rightarrow> string" where
  "progress_line p = ''progress:  '' @ fmt_d p @ ''%\<newline>''"

text \<open>The text of statistics mode for the entries still to visit, when \<open>c\<close> entries of a
  snapshot of \<open>S\<close> entries have been visited: plain integers, no wrap-around.\<close>

fun stats_body :: "int \<Rightarrow> int \<Rightarrow> entry list \<Rightarrow> string" where
  "stats_body S c [] = []"
| "stats_body S c (e # es) =
     line_pair (fst e) (snd e) @ extra_operand (snd e)
       @ (if S \<ge> 100 \<and> (c + 1) mod (S div 100) = 0 then progress_line ((c + 1) * 100 div S) else [])
       @ stats_body S (c + 1) es"

text \<open>The same text by position: what follows the entry at index \<open>i\<close> of the entries still
  to visit.\<close>

definition indexed_text :: "int \<Rightarrow> int \<Rightarrow> entry list \<Rightarrow> nat \<Rightarrow> string" where
  "indexed_text S c es i =
     line_pair (fst (es ! i)) (snd (es ! i)) @ extra_operand (snd (es ! i))
       @ (if S \<ge> 100 \<and> (c + int i + 1) mod (S div 100) = 0
          then progress_line ((c + int i + 1) * 100 div S) else [])"

text \<open>The accumulators \<^verbatim>\<open>PrintKeysWithValueSize\<close> starts from.\<close>

definition initial_stats :: stats where
  "initial_stats =
     \<lparr>printed = ''Printing all keys with hashed values (to detect diff)\<newline>'',
      count = 0, keySizeTotal = 0, valueSizeTotal = 0, keyMaxSize = 0, valueMaxSize = 0\<rparr>"

subsection \<open>The output of the statistics aggregator in closed form\<close>

text \<open>The prefix of a module, the report of a failed module on standard error, and what a
  run that ends normally has printed for the modules from index \<open>idx\<close> on.\<close>

definition module_prefix :: "string \<Rightarrow> bytes" where
  "module_prefix m = ''s/k:'' @ m @ ''/''"

definition error_report :: "string \<Rightarrow> error \<Rightarrow> chunk list" where
  "error_report m e =
     [Text ''Error reading '', Text m, Text '' data: '', ErrorText e, Text ''\<newline>'']"

definition module_errors :: "rocksdb \<Rightarrow> string \<Rightarrow> int \<Rightarrow> string \<Rightarrow> chunk list" where
  "module_errors R dbpath version m =
     (case ReadTree R dbpath version (module_prefix m) of
        (shown, tree, err) \<Rightarrow> (case err of Some e \<Rightarrow> error_report m e | None \<Rightarrow> []))"

definition module_report :: "rocksdb \<Rightarrow> string \<Rightarrow> int \<Rightarrow> int \<Rightarrow> string \<Rightarrow> string" where
  "module_report R dbpath version idx m =
     (case ReadTree R dbpath version (module_prefix m) of
        (shown, tree, err) \<Rightarrow>
          (case err of
             Some e \<Rightarrow> shown
           | None \<Rightarrow>
               (case tree of
                  None \<Rightarrow> shown
                | Some t \<Rightarrow>
                    shown @ ''iterating over '' @ m @ ''  ('' @ fmt_d (idx + 1) @ ''/19)\<newline>''
                      @ ''tree size:'' @ fmt_d (Size t) @ '' height:'' @ fmt_d (Height t)
                      @ ''\<newline>'' @ fst (PrintKeysWithValueSize t) @ ''\<newline>'')))"

fun module_reports :: "rocksdb \<Rightarrow> string \<Rightarrow> int \<Rightarrow> int \<Rightarrow> string list \<Rightarrow> string" where
  "module_reports R dbpath version idx [] = []"
| "module_reports R dbpath version idx (m # rest) =
     module_report R dbpath version idx m @ module_reports R dbpath version (idx + 1) rest"

subsection \<open>Example stores\<close>

text \<open>A directory with no database, a store whose every module holds one version with no
  entries, and a store with two versions of the bank module.\<close>

definition no_database :: rocksdb where
  "no_database = (\<lambda>name dir. Inl (LibError ''no such database''))"

definition empty_snapshots :: rocksdb where
  "empty_snapshots = (\<lambda>name dir. Inr \<lparr>trees = (\<lambda>p. Inr [(1, \<lparr>entries = [], height = 0\<rparr>)])\<rparr>)"

definition bank_store :: rocksdb where
  "bank_store =
     (\<lambda>name dir. Inr \<lparr>trees = (\<lambda>p. if p = ''s/k:bank/''
          then Inr [(1, \<lparr>entries = [(''k1'', ''v1'')], height = 0\<rparr>),
                    (2, \<lparr>entries = [(''k1'', ''v1''), (''k2'', ''v2'')], height = 1\<rparr>)]
          else Inr [])\<rparr>)"

section \<open>Properties of the weave-key codec\<close>

lemma nibble_cases:
  "(n::nat) < 16 \<Longrightarrow> n \<in> {0, 1, 2, 3, 4, 5, 6, 7, 8, 9, 10, 11, 12, 13, 14, 15}"
  by simp arith

lemma upper_hextable:
  assumes "(n::nat) < 16"
  shows "upper_byte (hextable ! n) = ''0123456789ABCDEF'' ! n"
  using nibble_cases [OF assms] by (auto simp: hextable_def upper_byte_def)

lemma hextable_alphabet:
  assumes "(n::nat) < 16"
  shows "hextable ! n \<in> set ''0123456789abcdef''"
  using nibble_cases [OF assms] by (auto simp: hextable_def)

lemma of_char_div16: "(of_char (v::char) :: nat) div 16 < 16"
proof -
  have "(of_char v :: nat) < 256" by simp
  then show ?thesis by arith
qed

lemma EncodeToString_alphabet: "set (EncodeToString bs) \<subseteq> set ''0123456789abcdef''"
proof (induction bs)
  case Nil
  show ?case by simp
next
  case (Cons v bs)
  have "hextable ! (of_char v div 16) \<in> set ''0123456789abcdef''"
    by (rule hextable_alphabet [OF of_char_div16])
  moreover have "hextable ! (of_char v mod 16) \<in> set ''0123456789abcdef''"
    by (rule hextable_alphabet) simp
  ultimately show ?case using Cons.IH by simp
qed

lemma ToUpper_EncodeToString: "ToUpper (EncodeToString bs) = upper_hex bs"
proof (induction bs)
  case Nil
  show ?case by (simp add: ToUpper_def upper_hex_def)
next
  case (Cons v bs)
  have hi: "upper_byte (hextable ! (of_char v div 16)) = ''0123456789ABCDEF'' ! (of_char v div 16)"
    by (rule upper_hextable [OF of_char_div16])
  have lo: "upper_byte (hextable ! (of_char v mod 16)) = ''0123456789ABCDEF'' ! (of_char v mod 16)"
    by (rule upper_hextable) simp
  from Cons.IH have "map upper_byte (EncodeToString bs) = upper_hex bs"
    by (simp add: ToUpper_def)
  then show ?case
    using hi lo by (simp add: ToUpper_def upper_hex_def)
qed

lemma encodeID_loop_printable:
  "list_all printable_ascii rest \<Longrightarrow> encodeID_loop ident rest = ident"
  by (induction rest) (auto simp: printable_ascii_def)

lemma encodeID_loop_binary:
  "\<not> list_all printable_ascii rest \<Longrightarrow> encodeID_loop ident rest = upper_hex ident"
  by (induction rest) (auto simp: printable_ascii_def ToUpper_EncodeToString)

lemma encodeID_printable: "list_all printable_ascii seg \<Longrightarrow> encodeID seg = seg"
  by (simp add: encodeID_def encodeID_loop_printable)

lemma encodeID_binary: "\<not> list_all printable_ascii seg \<Longrightarrow> encodeID seg = upper_hex seg"
  by (simp add: encodeID_def encodeID_loop_binary)

text \<open>The byte 0x7F is inside the range that the code returns as it is.\<close>

lemma encodeID_DEL: "encodeID [CHR 0x7F] = [CHR 0x7F]"
  by (simp add: encodeID_def)

lemma IndexByte_absent: "c \<notin> set s \<Longrightarrow> IndexByte s c = -1"
  by (induction s) auto

lemma IndexByte_lower: "- 1 \<le> IndexByte s c"
  by (induction s) (auto simp: Let_def)

lemma IndexByte_present:
  "c \<in> set s \<Longrightarrow> IndexByte s c = int (length (takeWhile (\<lambda>b. b \<noteq> c) s))"
proof (induction s)
  case Nil
  then show ?case by simp
next
  case (Cons b s)
  show ?case
  proof (cases "b = c")
    case True
    then show ?thesis by simp
  next
    case False
    with Cons.prems have "c \<in> set s" by simp
    with Cons.IH have "IndexByte s c = int (length (takeWhile (\<lambda>b. b \<noteq> c) s))" by simp
    with False show ?thesis by (simp add: Let_def)
  qed
qed

lemma parseWeaveKey_no_colon:
  "CHR '':'' \<notin> set key \<Longrightarrow> parseWeaveKey key = encodeID key"
  by (simp add: parseWeaveKey_def IndexByte_absent)

lemma parseWeaveKey_split:
  "CHR '':'' \<notin> set p \<Longrightarrow> parseWeaveKey (p @ CHR '':'' # i) = encodeID p @ '':'' @ encodeID i"
proof -
  assume p: "CHR '':'' \<notin> set p"
  then have tw: "takeWhile (\<lambda>b. b \<noteq> CHR '':'') (p @ CHR '':'' # i) = p"
    by (induction p) auto
  have "IndexByte (p @ CHR '':'' # i) CHR '':'' = int (length p)"
    using IndexByte_present [of "CHR '':''" "p @ CHR '':'' # i"] tw by simp
  then show ?thesis
    by (simp add: parseWeaveKey_def Let_def nat_add_distrib)
qed

section \<open>Machine arithmetic and formatting\<close>

lemma wrap64_id: "- (2 ^ 63) \<le> x \<Longrightarrow> x < 2 ^ 63 \<Longrightarrow> wrap64 x = x"
  by (simp add: wrap64_def)

lemma quo_nonneg: 
  assumes "0 \<le> a" "0 < b" "a < 2 ^ 63"
  shows "quo a b = a div b"
proof -
  have "0 \<le> a div b" using assms by (simp add: pos_imp_zdiv_nonneg_iff)
  moreover have "a div b \<le> a" using zdiv_mono2 [of a 1 b] assms by simp
  ultimately have "wrap64 (a div b) = a div b" using assms by (intro wrap64_id) auto
  moreover have "sgn a * sgn b * (\<bar>a\<bar> div \<bar>b\<bar>) = a div b"
    using assms by (cases "a = 0") auto
  ultimately show ?thesis by (simp add: quo_def)
qed

lemma rem_nonneg: "0 \<le> a \<Longrightarrow> 0 < b \<Longrightarrow> rem a b = a mod b"
  by (cases "a = 0") (auto simp: rem_def)

lemma udigits_nth:
  assumes "(n::nat) < 16"
  shows "udigits ! n = ''0123456789ABCDEF'' ! n"
  using nibble_cases [OF assms] by (auto simp: udigits_def)

lemma fmt_X_upper_hex: "fmt_X bs = upper_hex bs"
proof (induction bs)
  case Nil
  show ?case by (simp add: upper_hex_def)
next
  case (Cons c bs)
  have "udigits ! (of_char c div 16) = ''0123456789ABCDEF'' ! (of_char c div 16)"
    by (rule udigits_nth [OF of_char_div16])
  moreover have "udigits ! (of_char c mod 16) = ''0123456789ABCDEF'' ! (of_char c mod 16)"
    by (rule udigits_nth) simp
  ultimately show ?case using Cons.IH by (simp add: upper_hex_def)
qed

section \<open>The traversal loop of statistics mode\<close>

lemma visit_step:
  "iterate_entries (PrintKeysWithValueSize_visit tree) (e # es) st =
     iterate_entries (PrintKeysWithValueSize_visit tree) es
       (snd (PrintKeysWithValueSize_visit tree (fst e) (snd e) st))"
  by (simp add: PrintKeysWithValueSize_visit_def Let_def)

lemma visit_count:
  "count (snd (PrintKeysWithValueSize_visit tree key val st)) = wrap64 (count st + 1)"
  by (simp add: PrintKeysWithValueSize_visit_def Let_def)

lemma visit_keySizeTotal:
  "keySizeTotal (snd (PrintKeysWithValueSize_visit tree key val st)) =
     wrap64 (keySizeTotal st + int (length key))"
  by (simp add: PrintKeysWithValueSize_visit_def Let_def)

lemma visit_valueSizeTotal:
  "valueSizeTotal (snd (PrintKeysWithValueSize_visit tree key val st)) =
     wrap64 (valueSizeTotal st + int (length val))"
  by (simp add: PrintKeysWithValueSize_visit_def Let_def)

lemma visit_keyMaxSize:
  "keyMaxSize (snd (PrintKeysWithValueSize_visit tree key val st)) =
     max (keyMaxSize st) (int (length key))"
  by (simp add: PrintKeysWithValueSize_visit_def Let_def Max_go_def max_def)

lemma visit_valueMaxSize:
  "valueMaxSize (snd (PrintKeysWithValueSize_visit tree key val st)) =
     max (valueMaxSize st) (int (length val))"
  by (simp add: PrintKeysWithValueSize_visit_def Let_def Max_go_def max_def)

lemma visit_printed:
  "printed (snd (PrintKeysWithValueSize_visit tree key val st)) =
     printed st @ line_pair key val @ extra_operand val
       @ (if Size tree \<ge> 100 \<and> rem (wrap64 (count st + 1)) (quo (Size tree) 100) = 0
          then progress_line (quo (wrap64 (wrap64 (count st + 1) * 100)) (Size tree))
          else [])"
  by (simp add: PrintKeysWithValueSize_visit_def Let_def line_pair_def extra_operand_def
      progress_line_def fmt_X_upper_hex)

lemma iterate_count:
  "0 \<le> count st \<Longrightarrow> count st + int (length es) < 2 ^ 63 \<Longrightarrow>
   count (iterate_entries (PrintKeysWithValueSize_visit tree) es st) = count st + int (length es)"
proof (induction es arbitrary: st)
  case Nil
  show ?case by simp
next
  case (Cons e es)
  let ?st = "snd (PrintKeysWithValueSize_visit tree (fst e) (snd e) st)"
  have c: "count ?st = count st + 1"
    using Cons.prems by (simp add: visit_count wrap64_id)
  have "count (iterate_entries (PrintKeysWithValueSize_visit tree) es ?st)
          = count ?st + int (length es)"
    using Cons.prems c by (intro Cons.IH) auto
  then show ?case using c by (simp only: visit_step) simp
qed

lemma iterate_keySizeTotal:
  "0 \<le> keySizeTotal st \<Longrightarrow> keySizeTotal st + (\<Sum>e\<leftarrow>es. int (length (fst e))) < 2 ^ 63 \<Longrightarrow>
   keySizeTotal (iterate_entries (PrintKeysWithValueSize_visit tree) es st)
     = keySizeTotal st + (\<Sum>e\<leftarrow>es. int (length (fst e)))"
proof (induction es arbitrary: st)
  case Nil
  show ?case by simp
next
  case (Cons e es)
  let ?st = "snd (PrintKeysWithValueSize_visit tree (fst e) (snd e) st)"
  have nn: "0 \<le> (\<Sum>e\<leftarrow>es. int (length (fst e)))" by (rule sum_list_nonneg) auto
  have c: "keySizeTotal ?st = keySizeTotal st + int (length (fst e))"
    using Cons.prems nn by (simp add: visit_keySizeTotal wrap64_id)
  have "keySizeTotal (iterate_entries (PrintKeysWithValueSize_visit tree) es ?st)
          = keySizeTotal ?st + (\<Sum>e\<leftarrow>es. int (length (fst e)))"
    using Cons.prems c by (intro Cons.IH) auto
  then show ?case using c by (simp only: visit_step) simp
qed

lemma iterate_valueSizeTotal:
  "0 \<le> valueSizeTotal st \<Longrightarrow> valueSizeTotal st + (\<Sum>e\<leftarrow>es. int (length (snd e))) < 2 ^ 63 \<Longrightarrow>
   valueSizeTotal (iterate_entries (PrintKeysWithValueSize_visit tree) es st)
     = valueSizeTotal st + (\<Sum>e\<leftarrow>es. int (length (snd e)))"
proof (induction es arbitrary: st)
  case Nil
  show ?case by simp
next
  case (Cons e es)
  let ?st = "snd (PrintKeysWithValueSize_visit tree (fst e) (snd e) st)"
  have nn: "0 \<le> (\<Sum>e\<leftarrow>es. int (length (snd e)))" by (rule sum_list_nonneg) auto
  have c: "valueSizeTotal ?st = valueSizeTotal st + int (length (snd e))"
    using Cons.prems nn by (simp add: visit_valueSizeTotal wrap64_id)
  have "valueSizeTotal (iterate_entries (PrintKeysWithValueSize_visit tree) es ?st)
          = valueSizeTotal ?st + (\<Sum>e\<leftarrow>es. int (length (snd e)))"
    using Cons.prems c by (intro Cons.IH) auto
  then show ?case using c by (simp only: visit_step) simp
qed

lemma Max_insert_max:
  "finite A \<Longrightarrow> Max (insert (max (a::int) x) A) = max a (Max (insert x A))"
  by (cases "A = {}") (simp_all add: max.assoc)

lemma iterate_keyMaxSize:
  "keyMaxSize (iterate_entries (PrintKeysWithValueSize_visit tree) es st)
     = Max (insert (keyMaxSize st) (set (map (\<lambda>e. int (length (fst e))) es)))"
proof (induction es arbitrary: st)
  case Nil
  show ?case by simp
next
  case (Cons e es)
  show ?case
    by (simp only: visit_step Cons.IH visit_keyMaxSize) (simp add: Max_insert_max)
qed

lemma iterate_valueMaxSize:
  "valueMaxSize (iterate_entries (PrintKeysWithValueSize_visit tree) es st)
     = Max (insert (valueMaxSize st) (set (map (\<lambda>e. int (length (snd e))) es)))"
proof (induction es arbitrary: st)
  case Nil
  show ?case by simp
next
  case (Cons e es)
  show ?case
    by (simp only: visit_step Cons.IH visit_valueMaxSize) (simp add: Max_insert_max)
qed

lemma Max_insert_zero:
  assumes "xs \<noteq> []"
  shows "Max (insert 0 (set (map (\<lambda>x. int (f x)) xs))) = Max (set (map (\<lambda>x. int (f x)) xs))"
proof -
  let ?A = "set (map (\<lambda>x. int (f x)) xs)"
  have ne: "?A \<noteq> {}" using assms by simp
  have "0 \<le> Max ?A"
  proof -
    obtain x where "x \<in> set xs" using assms by (cases xs) auto
    then have a: "int (f x) \<in> ?A" by simp
    have "int (f x) \<le> Max ?A" using a by (intro Max_ge) auto
    then show ?thesis by linarith
  qed
  then show ?thesis using ne by (simp add: max_def)
qed

lemma iterate_printed:
  assumes "0 \<le> Size tree" "Size tree < 2 ^ 63"
  shows "0 \<le> count st \<Longrightarrow> (count st + int (length es)) * 100 < 2 ^ 63 \<Longrightarrow>
   printed (iterate_entries (PrintKeysWithValueSize_visit tree) es st)
     = printed st @ stats_body (Size tree) (count st) es"
proof (induction es arbitrary: st)
  case Nil
  show ?case by simp
next
  case (Cons e es)
  let ?st = "snd (PrintKeysWithValueSize_visit tree (fst e) (snd e) st)"
  have b: "count st + 1 < 2 ^ 63" "(count st + 1) * 100 < 2 ^ 63"
    using Cons.prems by auto
  have w: "wrap64 (count st + 1) = count st + 1"
    using Cons.prems b by (intro wrap64_id) auto
  have w2: "wrap64 ((count st + 1) * 100) = (count st + 1) * 100"
    using Cons.prems b by (intro wrap64_id) auto
  have c: "count ?st = count st + 1"
    by (simp add: visit_count w)
  have q: "Size tree \<ge> 100 \<Longrightarrow> quo (Size tree) 100 = Size tree div 100"
    using assms by (intro quo_nonneg) auto
  have r: "Size tree \<ge> 100 \<Longrightarrow>
      rem (count st + 1) (Size tree div 100) = (count st + 1) mod (Size tree div 100)"
    using Cons.prems by (intro rem_nonneg) auto
  have p: "Size tree \<ge> 100 \<Longrightarrow>
      quo ((count st + 1) * 100) (Size tree) = (count st + 1) * 100 div Size tree"
    using Cons.prems b by (intro quo_nonneg) auto
  have step: "printed ?st = printed st @ line_pair (fst e) (snd e) @ extra_operand (snd e)
       @ (if Size tree \<ge> 100 \<and> (count st + 1) mod (Size tree div 100) = 0
          then progress_line ((count st + 1) * 100 div Size tree) else [])"
  proof (cases "Size tree \<ge> 100")
    case True
    show ?thesis using q [OF True] r [OF True] p [OF True] w w2 True
      by (simp add: visit_printed)
  next
    case False
    then show ?thesis by (simp add: visit_printed)
  qed
  have "printed (iterate_entries (PrintKeysWithValueSize_visit tree) es ?st)
          = printed ?st @ stats_body (Size tree) (count ?st) es"
    using Cons.prems c by (intro Cons.IH) (auto simp: algebra_simps)
  then show ?case using c step by (simp only: visit_step) simp
qed

lemma indexed_text_Suc: "indexed_text S c (e # es) (Suc i) = indexed_text S (c + 1) es i"
proof -
  have "c + int (Suc i) + 1 = c + 1 + int i + 1" by simp
  then show ?thesis unfolding indexed_text_def by (simp only: nth_Cons_Suc)
qed

lemma stats_body_indexed_text:
  "stats_body S c es = concat (map (indexed_text S c es) [0..<length es])"
proof (induction es arbitrary: c)
  case Nil
  show ?case by simp
next
  case (Cons e es)
  have upt: "[0..<length (e # es)] = 0 # map Suc [0..<length es]"
    by (simp add: upt_conv_Cons map_Suc_upt del: upt_Suc)
  have tl: "indexed_text S c (e # es) \<circ> Suc = indexed_text S (c + 1) es"
    by (rule ext) (simp add: indexed_text_Suc)
  have hd: "indexed_text S c (e # es) 0 =
      line_pair (fst e) (snd e) @ extra_operand (snd e)
        @ (if S \<ge> 100 \<and> (c + 1) mod (S div 100) = 0
           then progress_line ((c + 1) * 100 div S) else [])"
    by (simp add: indexed_text_def)
  have "concat (map (indexed_text S c (e # es)) [0..<length (e # es)])
          = indexed_text S c (e # es) 0 @ concat (map (indexed_text S (c + 1) es) [0..<length es])"
    unfolding upt by (simp add: tl)
  also have "\<dots> = stats_body S c (e # es)"
    using hd Cons.IH [of "c + 1"] by simp
  finally show ?case by simp
qed

lemma stats_body_indexed:
  "stats_body S 0 es =
     concat (map (\<lambda>i. line_pair (fst (es ! i)) (snd (es ! i)) @ extra_operand (snd (es ! i))
                    @ (if S \<ge> 100 \<and> (int i + 1) mod (S div 100) = 0
                       then progress_line ((int i + 1) * 100 div S) else []))
                 [0..<length es])"
proof -
  have "indexed_text S 0 es = (\<lambda>i. line_pair (fst (es ! i)) (snd (es ! i)) @ extra_operand (snd (es ! i))
                    @ (if S \<ge> 100 \<and> (int i + 1) mod (S div 100) = 0
                       then progress_line ((int i + 1) * 100 div S) else []))"
    by (rule ext) (simp add: indexed_text_def)
  then show ?thesis using stats_body_indexed_text [of S 0 es] by simp
qed

lemma stats_body_small:
  "S < 100 \<Longrightarrow> stats_body S c es =
     concat (map (\<lambda>e. line_pair (fst e) (snd e) @ extra_operand (snd e)) es)"
  by (induction es arbitrary: c) auto

lemma PrintKeysWithValueSize_totals:
  "\<exists>tail. fst (PrintKeysWithValueSize tree) =
     printed (Iterate tree (PrintKeysWithValueSize_visit tree) initial_stats)
       @ fmt_d (count (Iterate tree (PrintKeysWithValueSize_visit tree) initial_stats))
       @ '' keys, keySizeTotal: '' @ tail"
  by (simp add: PrintKeysWithValueSize_def Let_def initial_stats_def split: sum.splits)

lemma IndexByte_upper: "c \<in> set s \<Longrightarrow> IndexByte s c < int (length s)"
proof -
  assume c: "c \<in> set s"
  have "length (takeWhile (\<lambda>b. b \<noteq> c) s) < length s"
    using c by (induction s) auto
  then show ?thesis using IndexByte_present [OF c] by simp
qed

lemma identifier_empty_iff:
  "drop (nat (IndexByte (p @ '':'') CHR '':'' + 1)) (p @ '':'') = [] \<longleftrightarrow> CHR '':'' \<notin> set p"
proof (cases "CHR '':'' \<in> set p")
  case True
  have "IndexByte (p @ '':'') CHR '':'' = int (length (takeWhile (\<lambda>b. b \<noteq> CHR '':'') (p @ '':'')))"
    by (rule IndexByte_present) simp
  also have "takeWhile (\<lambda>b. b \<noteq> CHR '':'') (p @ '':'') = takeWhile (\<lambda>b. b \<noteq> CHR '':'') p"
    using True by simp
  also have "int (length (takeWhile (\<lambda>b. b \<noteq> CHR '':'') p)) = IndexByte p CHR '':''"
    using IndexByte_present [OF True] by simp
  finally have "IndexByte (p @ '':'') CHR '':'' < int (length p)"
    using IndexByte_upper [OF True] by simp
  moreover have "0 \<le> IndexByte (p @ '':'') CHR '':''"
    using IndexByte_present [of "CHR '':''" "p @ '':''"] by simp
  ultimately have "nat (IndexByte (p @ '':'') CHR '':'' + 1) < length (p @ '':'')"
    by simp
  then show ?thesis using True by simp
next
  case False
  then have "takeWhile (\<lambda>b. b \<noteq> CHR '':'') (p @ '':'') = p"
    by (induction p) auto
  then have "IndexByte (p @ '':'') CHR '':'' = int (length p)"
    using IndexByte_present [of "CHR '':''" "p @ '':''"] by simp
  then show ?thesis using False by (simp add: nat_add_distrib)
qed

section \<open>The claims about the weave-key codec\<close>

text \<open>
  Claim C2. Weave-key rendering is a function of the key bytes alone: equal keys render
  equally. A segment whose bytes all lie in the printable range 0x20 to 0x7F is returned
  as it is; a segment with a byte outside the range is returned as the uppercase
  hexadecimal of the whole segment. \<^verbatim>\<open>"abc:def"\<close> renders as itself, and in a key that holds
  the byte 0x00 the segment with that byte (the whole key when it has no colon) is
  rendered in uppercase hexadecimal.
\<close>

theorem weave_key_rendering:
  "(k = k' \<longrightarrow> parseWeaveKey k = parseWeaveKey k' \<and> encodeID k = encodeID k')
   \<and> (list_all printable_ascii seg \<longrightarrow> encodeID seg = seg)
   \<and> (\<not> list_all printable_ascii seg \<longrightarrow> encodeID seg = upper_hex seg)
   \<and> parseWeaveKey ''abc:def'' = ''abc:def''
   \<and> (CHR 0x00 \<in> set key \<and> CHR '':'' \<notin> set key \<longrightarrow> parseWeaveKey key = upper_hex key)
   \<and> (CHR '':'' \<notin> set p \<longrightarrow>
        parseWeaveKey (p @ CHR '':'' # i) = encodeID p @ '':'' @ encodeID i
        \<and> (CHR 0x00 \<in> set p \<longrightarrow> encodeID p = upper_hex p)
        \<and> (CHR 0x00 \<in> set i \<longrightarrow> encodeID i = upper_hex i))"
proof -
  have zero: "\<And>s. CHR 0x00 \<in> set s \<Longrightarrow> \<not> list_all printable_ascii s"
    by (auto simp: list_all_iff printable_ascii_def intro!: bexI [of _ "CHR 0x00"])
  have ex: "parseWeaveKey ''abc:def'' = ''abc:def''"
    using parseWeaveKey_split [of "''abc''" "''def''"]
    by (simp add: encodeID_def)
  have nocolon: "CHR 0x00 \<in> set key \<and> CHR '':'' \<notin> set key \<longrightarrow> parseWeaveKey key = upper_hex key"
    using zero [of key] by (simp add: parseWeaveKey_no_colon encodeID_binary)
  have colon: "CHR '':'' \<notin> set p \<longrightarrow>
        parseWeaveKey (p @ CHR '':'' # i) = encodeID p @ '':'' @ encodeID i
        \<and> (CHR 0x00 \<in> set p \<longrightarrow> encodeID p = upper_hex p)
        \<and> (CHR 0x00 \<in> set i \<longrightarrow> encodeID i = upper_hex i)"
    using zero [of p] zero [of i] by (simp add: parseWeaveKey_split encodeID_binary)
  show ?thesis
    using ex nocolon colon by (simp add: encodeID_printable encodeID_binary)
qed

theorem weave_key_rendering_witness:
  "parseWeaveKey ''a:b'' = parseWeaveKey ''a:b''
   \<and> list_all printable_ascii ''abc'' \<and> encodeID ''abc'' = ''abc''
   \<and> \<not> list_all printable_ascii [CHR 0x01, CHR ''a''] \<and> encodeID [CHR 0x01, CHR ''a''] = ''0161''
   \<and> CHR 0x00 \<in> set [CHR ''k'', CHR 0x00] \<and> CHR '':'' \<notin> set [CHR ''k'', CHR 0x00]
   \<and> parseWeaveKey [CHR ''k'', CHR 0x00] = ''6B00''
   \<and> CHR '':'' \<notin> set [CHR 0x00, CHR 0xFF] \<and> CHR 0x00 \<in> set [CHR 0x00, CHR 0xFF]
   \<and> parseWeaveKey ([CHR 0x00, CHR 0xFF] @ CHR '':'' # ''id'') = ''00FF:id''"
  using weave_key_rendering [of "''a:b''" "''a:b''" "''abc''" "[CHR ''k'', CHR 0x00]" "[CHR 0x00, CHR 0xFF]" "''id''"]
        weave_key_rendering [of "''a:b''" "''a:b''" "[CHR 0x01, CHR ''a'']" "[CHR ''k'', CHR 0x00]" "[CHR 0x00, CHR 0xFF]" "[CHR 0x00]"]
  by (simp add: printable_ascii_def upper_hex_def encodeID_def)

text \<open>
  Claim C10. An empty segment is returned as it is: the empty key renders as the empty
  string, a key whose first colon is its last byte (its identifier segment is empty)
  renders as the encoded prefix followed by the colon, a key that starts with the colon as
  the colon followed by the encoded identifier, and the key that is the colon alone as the
  colon. For a key that ends in the colon, the identifier segment \<^verbatim>\<open>key[cut+1:]\<close> is empty
  exactly when no colon comes before the last byte.
\<close>

theorem empty_segment_rendering:
  "encodeID [] = []
   \<and> parseWeaveKey [] = []
   \<and> (CHR '':'' \<notin> set p \<longrightarrow> parseWeaveKey (p @ '':'') = encodeID p @ '':'')
   \<and> parseWeaveKey (CHR '':'' # i) = '':'' @ encodeID i
   \<and> parseWeaveKey '':'' = '':''
   \<and> (drop (nat (IndexByte (p @ '':'') CHR '':'' + 1)) (p @ '':'') = [] \<longleftrightarrow> CHR '':'' \<notin> set p)"
proof -
  have a: "encodeID [] = []" by (simp add: encodeID_def)
  have b: "parseWeaveKey (CHR '':'' # i) = '':'' @ encodeID i"
    using parseWeaveKey_split [of "[]" i] a by simp
  have c: "CHR '':'' \<notin> set p \<longrightarrow> parseWeaveKey (p @ '':'') = encodeID p @ '':''"
    using parseWeaveKey_split [of p "[]"] a by simp
  have d: "parseWeaveKey '':'' = '':''"
    using parseWeaveKey_split [of "[]" "[]"] a by simp
  show ?thesis using a b c d identifier_empty_iff [of p] by (simp add: parseWeaveKey_def)
qed

theorem empty_segment_rendering_witness:
  "CHR '':'' \<notin> set [CHR 0x00, CHR ''a''] \<and> parseWeaveKey ([CHR 0x00, CHR ''a''] @ '':'') = ''0061:''
   \<and> CHR '':'' \<notin> set ''bal'' \<and> parseWeaveKey (''bal'' @ '':'') = ''bal:''"
  using empty_segment_rendering [of "[CHR 0x00, CHR ''a'']" "[]"] empty_segment_rendering [of "''bal''" "[]"]
  by (simp add: encodeID_def upper_hex_def ToUpper_def hextable_def upper_byte_def)

section \<open>The claims about statistics mode\<close>

text \<open>
  Claim C1 says that the averages are guarded on an empty tree and printed as 0. The code
  does not guard them: on a tree with no entries \<^verbatim>\<open>PrintKeysWithValueSize\<close> prints the header
  and the line of totals, and the division by \<^verbatim>\<open>count\<close>, which is 0, panics before the line of
  averages is printed.
\<close>

theorem empty_tree_divide_by_zero:
  "PrintKeysWithValueSize \<lparr>versions = vs, working = \<lparr>entries = [], height = h\<rparr>\<rparr> =
     (''Printing all keys with hashed values (to detect diff)\<newline>''
        @ ''0 keys, keySizeTotal: 0, valueSizeTotal: 0\<newline>'',
      Some DivideByZero)"
  by (simp add: PrintKeysWithValueSize_def Iterate_def checked_quo_def fmt_d_def dec_nat.simps)

text \<open>
  Claim C3. For a snapshot of N entries, N at least 1, the averages printed by statistics
  mode are the sum of the key lengths divided by N and the sum of the value lengths divided
  by N, in integer division, and the maxima printed are the greatest key length and the
  greatest value length. The counters are 64-bit: N and the two sums are below \<open>2 ^ 63\<close>.
\<close>

theorem statistics_averages_and_maxima:
  assumes es: "entries (working tree) = es" and ne: "es \<noteq> []"
    and n: "int (length es) < 2 ^ 63"
    and k: "(\<Sum>e\<leftarrow>es. int (length (fst e))) < 2 ^ 63"
    and v: "(\<Sum>e\<leftarrow>es. int (length (snd e))) < 2 ^ 63"
  shows "\<exists>body. PrintKeysWithValueSize tree =
     (body @ fmt_d (int (length es)) @ '' keys, keySizeTotal: ''
        @ fmt_d (\<Sum>e\<leftarrow>es. int (length (fst e))) @ '', valueSizeTotal: ''
        @ fmt_d (\<Sum>e\<leftarrow>es. int (length (snd e))) @ ''\<newline>''
        @ ''avg key size:'' @ fmt_d ((\<Sum>e\<leftarrow>es. int (length (fst e))) div int (length es))
        @ '', avg value size:'' @ fmt_d ((\<Sum>e\<leftarrow>es. int (length (snd e))) div int (length es))
        @ ''\<newline>''
        @ ''max key size:'' @ fmt_d (Max (set (map (\<lambda>e. int (length (fst e))) es)))
        @ '', max value size:'' @ fmt_d (Max (set (map (\<lambda>e. int (length (snd e))) es)))
        @ ''\<newline>'',
      None)"
proof -
  let ?st = "Iterate tree (PrintKeysWithValueSize_visit tree) initial_stats"
  let ?K = "\<Sum>e\<leftarrow>es. int (length (fst e))"
  let ?V = "\<Sum>e\<leftarrow>es. int (length (snd e))"
  let ?N = "int (length es)"
  have st: "?st = iterate_entries (PrintKeysWithValueSize_visit tree) es initial_stats"
    by (simp add: Iterate_def es)
  have c: "count ?st = ?N"
    unfolding st using n by (subst iterate_count) (simp_all add: initial_stats_def)
  have kt: "keySizeTotal ?st = ?K"
    unfolding st using k by (subst iterate_keySizeTotal) (simp_all add: initial_stats_def)
  have vt: "valueSizeTotal ?st = ?V"
    unfolding st using v by (subst iterate_valueSizeTotal) (simp_all add: initial_stats_def)
  have km: "keyMaxSize ?st = Max (set (map (\<lambda>e. int (length (fst e))) es))"
    unfolding st iterate_keyMaxSize using Max_insert_zero [OF ne, of "\<lambda>e. length (fst e)"]
    by (simp add: initial_stats_def)
  have vm: "valueMaxSize ?st = Max (set (map (\<lambda>e. int (length (snd e))) es))"
    unfolding st iterate_valueMaxSize using Max_insert_zero [OF ne, of "\<lambda>e. length (snd e)"]
    by (simp add: initial_stats_def)
  have pos: "0 < ?N" using ne by simp
  have knn: "0 \<le> ?K" by (rule sum_list_nonneg) auto
  have vnn: "0 \<le> ?V" by (rule sum_list_nonneg) auto
  have qk: "checked_quo ?K ?N = Inr (?K div ?N)"
    using pos quo_nonneg [OF knn pos k] by (simp add: checked_quo_def)
  have qv: "checked_quo ?V ?N = Inr (?V div ?N)"
    using pos quo_nonneg [OF vnn pos v] by (simp add: checked_quo_def)
  have "PrintKeysWithValueSize tree =
     (printed ?st @ fmt_d ?N @ '' keys, keySizeTotal: ''
        @ fmt_d ?K @ '', valueSizeTotal: '' @ fmt_d ?V @ ''\<newline>''
        @ ''avg key size:'' @ fmt_d (?K div ?N)
        @ '', avg value size:'' @ fmt_d (?V div ?N) @ ''\<newline>''
        @ ''max key size:'' @ fmt_d (Max (set (map (\<lambda>e. int (length (fst e))) es)))
        @ '', max value size:'' @ fmt_d (Max (set (map (\<lambda>e. int (length (snd e))) es)))
        @ ''\<newline>'',
      None)"
    unfolding PrintKeysWithValueSize_def initial_stats_def [symmetric] Let_def c kt vt km vm qk qv
    by simp
  then show ?thesis by blast
qed

theorem statistics_averages_and_maxima_witness:
  "entries (working \<lparr>versions = [], working = \<lparr>entries = [(''a:b'', ''abc''), ([CHR 0x01, CHR '':'', CHR ''x''], [])], height = 1\<rparr>\<rparr>)
      = [(''a:b'', ''abc''), ([CHR 0x01, CHR '':'', CHR ''x''], [])]
   \<and> [(''a:b'', ''abc''), ([CHR 0x01, CHR '':'', CHR ''x''], [])] \<noteq> []
   \<and> int (length [(''a:b'', ''abc''), ([CHR 0x01, CHR '':'', CHR ''x''], [])]) < 2 ^ 63
   \<and> (\<Sum>e\<leftarrow>[(''a:b'', ''abc''), ([CHR 0x01, CHR '':'', CHR ''x''], [])]. int (length (fst e))) < 2 ^ 63
   \<and> (\<Sum>e\<leftarrow>[(''a:b'', ''abc''), ([CHR 0x01, CHR '':'', CHR ''x''], [])]. int (length (snd e))) < 2 ^ 63
   \<and> (\<exists>body. PrintKeysWithValueSize
          \<lparr>versions = [], working = \<lparr>entries = [(''a:b'', ''abc''), ([CHR 0x01, CHR '':'', CHR ''x''], [])], height = 1\<rparr>\<rparr>
        = (body @ ''2 keys, keySizeTotal: 6, valueSizeTotal: 3\<newline>avg key size:3, avg value size:1\<newline>max key size:3, max value size:3\<newline>'', None))"
  using statistics_averages_and_maxima
    [of "\<lparr>versions = [], working = \<lparr>entries = [(''a:b'', ''abc''), ([CHR 0x01, CHR '':'', CHR ''x''], [])], height = 1\<rparr>\<rparr>"
        "[(''a:b'', ''abc''), ([CHR 0x01, CHR '':'', CHR ''x''], [])]"]
  by (simp add: fmt_d_def dec_nat.simps)

text \<open>
  Claim C5 says that statistics mode prints, for every entry, the line pair of digest mode
  and nothing else. Digest mode prints the line pair; the \<^verbatim>\<open>Printf\<close> of statistics mode has
  the operand \<^verbatim>\<open>valueSize\<close> and no verb for it, so the line pair is followed by
  \<^verbatim>\<open>%!(EXTRA int=<length of the value>)\<close>, and the two texts differ for every entry.
\<close>

theorem statistics_entry_extra_operand:
  "snd (PrintKeys_visit key val out) = out @ line_pair key val
   \<and> (\<exists>rest. printed (snd (PrintKeysWithValueSize_visit tree key val st))
          = printed st @ line_pair key val @ ''%!(EXTRA int='' @ fmt_d (int (length val)) @ '')'' @ rest)
   \<and> printed (snd (PrintKeysWithValueSize_visit tree key val st))
        \<noteq> snd (PrintKeys_visit key val (printed st))"
proof -
  have a: "\<And>out. snd (PrintKeys_visit key val out) = out @ line_pair key val"
    by (simp add: PrintKeys_visit_def Let_def line_pair_def fmt_X_upper_hex)
  have b: "\<exists>rest. printed (snd (PrintKeysWithValueSize_visit tree key val st))
          = printed st @ line_pair key val @ ''%!(EXTRA int='' @ fmt_d (int (length val)) @ '')'' @ rest"
    unfolding visit_printed extra_operand_def by simp
  have c: "printed (snd (PrintKeysWithValueSize_visit tree key val st))
        \<noteq> snd (PrintKeys_visit key val (printed st))"
    unfolding visit_printed a extra_operand_def by simp
  show ?thesis using a b c by blast
qed

lemma traversal_printed:
  assumes es: "entries (working tree) = es" and bound: "int (length es) * 100 < 2 ^ 63"
  shows "printed (Iterate tree (PrintKeysWithValueSize_visit tree) initial_stats)
           = ''Printing all keys with hashed values (to detect diff)\<newline>''
               @ stats_body (int (length es)) 0 es"
    and "count (Iterate tree (PrintKeysWithValueSize_visit tree) initial_stats) = int (length es)"
proof -
  let ?st = "Iterate tree (PrintKeysWithValueSize_visit tree) initial_stats"
  have st: "?st = iterate_entries (PrintKeysWithValueSize_visit tree) es initial_stats"
    by (simp add: Iterate_def es)
  have S: "Size tree = int (length es)" by (simp add: Size_def es)
  have n: "int (length es) < 2 ^ 63" using bound by simp
  show "count ?st = int (length es)"
    unfolding st using n by (subst iterate_count) (simp_all add: initial_stats_def)
  have "printed ?st = printed initial_stats @ stats_body (Size tree) (count initial_stats) es"
    unfolding st using bound n S
    by (intro iterate_printed) (simp_all add: initial_stats_def)
  then show "printed ?st = ''Printing all keys with hashed values (to detect diff)\<newline>''
       @ stats_body (int (length es)) 0 es"
    by (simp add: initial_stats_def S)
qed

text \<open>
  Claim C6, as amended. In statistics mode over a snapshot of S entries (with \<open>100 * S\<close> below
  \<open>2 ^ 63\<close>), the text between the header and the line of totals is, entry by entry, the
  line pair, the text for the extra operand and, when S is at least 100 and the number of
  entries visited so far is a multiple of \<open>S div 100\<close>, the line
  \<^verbatim>\<open>progress:  P%\<close> with P the number visited times 100 divided by S. With fewer than 100
  entries there is no progress line at all.
\<close>

theorem progress_lines_by_step:
  assumes es: "entries (working tree) = es" and bound: "int (length es) * 100 < 2 ^ 63"
  shows "\<exists>tail. fst (PrintKeysWithValueSize tree) =
     ''Printing all keys with hashed values (to detect diff)\<newline>''
       @ concat (map (\<lambda>i. line_pair (fst (es ! i)) (snd (es ! i)) @ extra_operand (snd (es ! i))
                      @ (if int (length es) \<ge> 100 \<and> (int i + 1) mod (int (length es) div 100) = 0
                         then progress_line ((int i + 1) * 100 div int (length es)) else []))
                   [0..<length es])
       @ fmt_d (int (length es)) @ '' keys, keySizeTotal: '' @ tail"
proof -
  obtain tail where "fst (PrintKeysWithValueSize tree) =
     printed (Iterate tree (PrintKeysWithValueSize_visit tree) initial_stats)
       @ fmt_d (count (Iterate tree (PrintKeysWithValueSize_visit tree) initial_stats))
       @ '' keys, keySizeTotal: '' @ tail"
    using PrintKeysWithValueSize_totals [of tree] by blast
  then have "fst (PrintKeysWithValueSize tree) =
     ''Printing all keys with hashed values (to detect diff)\<newline>''
       @ stats_body (int (length es)) 0 es
       @ fmt_d (int (length es)) @ '' keys, keySizeTotal: '' @ tail"
    using traversal_printed [OF es bound] by simp
  then show ?thesis unfolding stats_body_indexed by blast
qed

theorem progress_lines_by_step_witness:
  "entries (working \<lparr>versions = [], working = \<lparr>entries = replicate 100 (''k'', ''v''), height = 7\<rparr>\<rparr>)
      = replicate 100 (''k'', ''v'')
   \<and> int (length (replicate 100 (''k'', ''v''))) * 100 < 2 ^ 63
   \<and> (\<exists>tail. fst (PrintKeysWithValueSize
          \<lparr>versions = [], working = \<lparr>entries = replicate 100 (''k'', ''v''), height = 7\<rparr>\<rparr>) =
     ''Printing all keys with hashed values (to detect diff)\<newline>''
       @ concat (map (\<lambda>i. line_pair ''k'' ''v'' @ extra_operand ''v'' @ progress_line (int i + 1))
                   [0..<100])
       @ ''100 keys, keySizeTotal: '' @ tail)"
proof -
  have m: "map (\<lambda>i. line_pair (fst (replicate 100 (''k'', ''v'') ! i)) (snd (replicate 100 (''k'', ''v'') ! i))
                      @ extra_operand (snd (replicate 100 (''k'', ''v'') ! i))
                      @ (if int (length (replicate 100 (''k'', ''v''))) \<ge> 100
                            \<and> (int i + 1) mod (int (length (replicate 100 (''k'', ''v''))) div 100) = 0
                         then progress_line ((int i + 1) * 100 div int (length (replicate 100 (''k'', ''v''))))
                         else []))
              [0..<length (replicate 100 (''k'', ''v''))]
         = map (\<lambda>i. line_pair ''k'' ''v'' @ extra_operand ''v'' @ progress_line (int i + 1)) [0..<100]"
    by (rule map_cong) simp_all
  show ?thesis
    using progress_lines_by_step
      [of "\<lparr>versions = [], working = \<lparr>entries = replicate 100 (''k'', ''v''), height = 7\<rparr>\<rparr>"
          "replicate 100 (''k'', ''v'')"]
    unfolding m by (simp add: fmt_d_def dec_nat.simps)
qed

text \<open>
  Claim C6 as stated fails on a snapshot of one entry: the whole of the entries is visited
  and no progress line is printed. It also fails on a snapshot of 150 entries: the step is
  one entry, and a progress line follows every entry, 150 lines for 100 percent.
\<close>

theorem progress_once_per_percent_counterexample:
  "PrintKeysWithValueSize \<lparr>versions = [], working = \<lparr>entries = [(''k'', ''v'')], height = 0\<rparr>\<rparr> =
     (''Printing all keys with hashed values (to detect diff)\<newline>''
        @ ''  k\<newline>    '' @ upper_hex (Sum256 ''v'') @ ''\<newline>%!(EXTRA int=1)''
        @ ''1 keys, keySizeTotal: 1, valueSizeTotal: 1\<newline>''
        @ ''avg key size:1, avg value size:1\<newline>''
        @ ''max key size:1, max value size:1\<newline>'', None)
   \<and> (\<exists>tail. fst (PrintKeysWithValueSize
          \<lparr>versions = [], working = \<lparr>entries = replicate 150 (''k'', ''v''), height = 8\<rparr>\<rparr>) =
     ''Printing all keys with hashed values (to detect diff)\<newline>''
       @ concat (map (\<lambda>i. line_pair ''k'' ''v'' @ extra_operand ''v''
                      @ progress_line ((int i + 1) * 100 div 150))
                   [0..<150])
       @ ''150 keys, keySizeTotal: '' @ tail)"
proof -
  have one: "PrintKeysWithValueSize
      \<lparr>versions = [], working = \<lparr>entries = [(''k'', ''v'')], height = 0\<rparr>\<rparr> =
     (''Printing all keys with hashed values (to detect diff)\<newline>''
        @ ''  k\<newline>    '' @ upper_hex (Sum256 ''v'') @ ''\<newline>%!(EXTRA int=1)''
        @ ''1 keys, keySizeTotal: 1, valueSizeTotal: 1\<newline>''
        @ ''avg key size:1, avg value size:1\<newline>''
        @ ''max key size:1, max value size:1\<newline>'', None)"
    by (simp add: PrintKeysWithValueSize_def PrintKeysWithValueSize_visit_def Iterate_def Size_def
        Let_def checked_quo_def quo_def wrap64_def Max_go_def fmt_d_def dec_nat.simps
        parseWeaveKey_def encodeID_def fmt_X_upper_hex)
  have m: "map (\<lambda>i. line_pair (fst (replicate 150 (''k'', ''v'') ! i))
                      (snd (replicate 150 (''k'', ''v'') ! i))
                    @ extra_operand (snd (replicate 150 (''k'', ''v'') ! i))
                    @ (if int (length (replicate 150 (''k'', ''v''))) \<ge> 100
                          \<and> (int i + 1) mod (int (length (replicate 150 (''k'', ''v''))) div 100) = 0
                       then progress_line
                              ((int i + 1) * 100 div int (length (replicate 150 (''k'', ''v''))))
                       else []))
              [0..<length (replicate 150 (''k'', ''v''))]
         = map (\<lambda>i. line_pair ''k'' ''v'' @ extra_operand ''v''
                      @ progress_line ((int i + 1) * 100 div 150)) [0..<150]"
    by (rule map_cong) simp_all
  have many: "\<exists>tail. fst (PrintKeysWithValueSize
          \<lparr>versions = [], working = \<lparr>entries = replicate 150 (''k'', ''v''), height = 8\<rparr>\<rparr>) =
     ''Printing all keys with hashed values (to detect diff)\<newline>''
       @ concat (map (\<lambda>i. line_pair ''k'' ''v'' @ extra_operand ''v''
                      @ progress_line ((int i + 1) * 100 div 150))
                   [0..<150])
       @ ''150 keys, keySizeTotal: '' @ tail"
  proof -
    let ?t = "\<lparr>versions = [], working = \<lparr>entries = replicate 150 (''k'', ''v''), height = 8\<rparr>\<rparr>"
    let ?es = "replicate 150 (''k'', ''v'')"
    have es: "entries (working ?t) = ?es" by simp
    have bound: "int (length ?es) * 100 < 2 ^ 63" by simp
    obtain tail where "fst (PrintKeysWithValueSize ?t) =
       printed (Iterate ?t (PrintKeysWithValueSize_visit ?t) initial_stats)
         @ fmt_d (count (Iterate ?t (PrintKeysWithValueSize_visit ?t) initial_stats))
         @ '' keys, keySizeTotal: '' @ tail"
      using PrintKeysWithValueSize_totals [of ?t] by blast
    then have "fst (PrintKeysWithValueSize ?t) =
       ''Printing all keys with hashed values (to detect diff)\<newline>''
         @ stats_body (int (length ?es)) 0 ?es
         @ fmt_d (int (length ?es)) @ '' keys, keySizeTotal: '' @ tail"
      using traversal_printed [OF es bound] by simp
    then show ?thesis
      unfolding stats_body_indexed m by (simp add: fmt_d_def dec_nat.simps)
  qed
  show ?thesis using one many by blast
qed

section \<open>OpenDB\<close>

lemma HasSuffix_iff: "HasSuffix s x \<longleftrightarrow> (\<exists>p. s = p @ x)"
proof
  assume "HasSuffix s x"
  then have "s = take (length s - length x) s @ x"
    by (metis HasSuffix_def append_take_drop_id)
  then show "\<exists>p. s = p @ x" ..
next
  assume "\<exists>p. s = p @ x"
  then show "HasSuffix s x" by (auto simp: HasSuffix_def)
qed

lemma LastIndexByte_absent: "c \<notin> set s \<Longrightarrow> LastIndexByte s c = -1"
  by (induction s) (auto simp: Let_def)

lemma OpenDB_no_suffix:
  "\<not> HasSuffix dir ''.db'' \<Longrightarrow> \<not> HasSuffix dir ''.db/'' \<Longrightarrow>
   OpenDB R dir = (Inl (Errorf ''database directory must end with .db''), [])"
  by (simp add: OpenDB_def)

lemma OpenDB_no_parent_db:
  "CHR ''/'' \<notin> set stem \<Longrightarrow>
   OpenDB R (stem @ ''.db'') = (Inl (Errorf (''cannot cut paths on '' @ stem)), [])"
  by (simp add: OpenDB_def HasSuffix_def LastIndexByte_absent)

lemma OpenDB_no_parent_db_slash:
  "CHR ''/'' \<notin> set stem \<Longrightarrow>
   OpenDB R (stem @ ''.db/'') = (Inl (Errorf (''cannot cut paths on '' @ stem)), [])"
  by (simp add: OpenDB_def HasSuffix_def LastIndexByte_absent)

text \<open>
  Claim C9. A directory that ends neither in \<^verbatim>\<open>.db\<close> nor in \<^verbatim>\<open>.db/\<close> is refused with an
  error, and so is one whose path before the suffix has no \<^verbatim>\<open>/\<close> to cut it into a parent
  directory and a name; in both cases \<^verbatim>\<open>OpenDB\<close> makes no call of \<^verbatim>\<open>dbm.NewRocksDB\<close>
  (its list of calls is empty).
\<close>

theorem OpenDB_invalid_path:
  "(\<not> HasSuffix dir ''.db'' \<and> \<not> HasSuffix dir ''.db/'' \<longrightarrow>
      OpenDB R dir = (Inl (Errorf ''database directory must end with .db''), []))
   \<and> (CHR ''/'' \<notin> set stem \<longrightarrow>
      OpenDB R (stem @ ''.db'') = (Inl (Errorf (''cannot cut paths on '' @ stem)), [])
      \<and> OpenDB R (stem @ ''.db/'') = (Inl (Errorf (''cannot cut paths on '' @ stem)), []))
   \<and> (HasSuffix dir ''.db'' \<longleftrightarrow> (\<exists>p. dir = p @ ''.db''))
   \<and> (HasSuffix dir ''.db/'' \<longleftrightarrow> (\<exists>p. dir = p @ ''.db/''))"
  using OpenDB_no_suffix [of dir R] OpenDB_no_parent_db [of stem R]
    OpenDB_no_parent_db_slash [of stem R] HasSuffix_iff [of dir "''.db''"]
    HasSuffix_iff [of dir "''.db/''"]
  by blast

theorem OpenDB_invalid_path_witness:
  "\<not> HasSuffix ''/data/application'' ''.db'' \<and> \<not> HasSuffix ''/data/application'' ''.db/''
   \<and> OpenDB (\<lambda>name dir. Inr \<lparr>trees = \<lambda>p. Inr []\<rparr>) ''/data/application''
         = (Inl (Errorf ''database directory must end with .db''), [])
   \<and> CHR ''/'' \<notin> set ''application''
   \<and> OpenDB (\<lambda>name dir. Inr \<lparr>trees = \<lambda>p. Inr []\<rparr>) (''application'' @ ''.db'')
         = (Inl (Errorf ''cannot cut paths on application''), [])
   \<and> OpenDB (\<lambda>name dir. Inr \<lparr>trees = \<lambda>p. Inr []\<rparr>) (''application'' @ ''.db/'')
         = (Inl (Errorf ''cannot cut paths on application''), [])"
  using OpenDB_invalid_path [of "''/data/application''" "\<lambda>name dir. Inr \<lparr>trees = \<lambda>p. Inr []\<rparr>" "''application''"]
  by (simp add: HasSuffix_def)

section \<open>ReadTree\<close>

lemma latest_version_mem: "vs \<noteq> [] \<Longrightarrow> latest_version vs \<in> fst ` set vs"
proof -
  assume "vs \<noteq> []"
  then have "set (map fst vs) \<noteq> {}" by simp
  then have "Max (set (map fst vs)) \<in> set (map fst vs)" by (intro Max_in) auto
  then show ?thesis by (simp add: latest_version_def)
qed

lemma latest_version_greatest: "v \<in> fst ` set vs \<Longrightarrow> v \<le> latest_version vs"
  unfolding latest_version_def by (intro Max_ge) auto

lemma map_of_committed: "v \<in> fst ` set vs \<Longrightarrow> \<exists>s. map_of vs v = Some s"
  by (metis map_of_eq_None_iff not_Some_eq)

lemma map_of_missing: "v \<notin> fst ` set vs \<Longrightarrow> map_of vs v = None"
  by (simp add: map_of_eq_None_iff)

lemma ReadTree_opened:
  assumes "fst (OpenDB R dir) = Inr db0" and "trees db0 prefix = Inr vs"
  shows "ReadTree R dir version prefix =
     (case LoadVersion \<lparr>versions = vs, working = \<lparr>entries = [], height = 0\<rparr>\<rparr> version of
        (tree, ver, err) \<Rightarrow> (''Got version: '' @ fmt_d ver @ ''\<newline>'', Some tree, err))"
  using assms by (cases "prefix = []") (simp_all add: ReadTree_def NewMutableTree_def NewPrefixDB_def)

text \<open>
  Claim C7. When the store opens and the tree under the prefix has committed versions,
  \<^verbatim>\<open>ReadTree\<close> with version 0 reports the latest committed version (the greatest one), loads
  its snapshot, returns no error, and returns what \<^verbatim>\<open>ReadTree\<close> with that version number
  returns. With a version number other than 0 that was never committed it returns an error.
\<close>

theorem ReadTree_latest_and_missing:
  assumes db: "fst (OpenDB R dir) = Inr db0" and vs: "trees db0 prefix = Inr vs"
  shows "(vs \<noteq> [] \<longrightarrow>
            (\<exists>s. map_of vs (latest_version vs) = Some s
               \<and> ReadTree R dir 0 prefix =
                   (''Got version: '' @ fmt_d (latest_version vs) @ ''\<newline>'',
                    Some \<lparr>versions = vs, working = s\<rparr>, None))
            \<and> ReadTree R dir 0 prefix = ReadTree R dir (latest_version vs) prefix
            \<and> latest_version vs \<in> fst ` set vs
            \<and> (\<forall>v \<in> fst ` set vs. v \<le> latest_version vs))
         \<and> (v \<noteq> 0 \<and> v \<notin> fst ` set vs \<longrightarrow>
              (\<exists>shown t e. ReadTree R dir v prefix = (shown, t, Some e)))"
proof -
  note rt = ReadTree_opened [OF db vs]
  have latest: "vs \<noteq> [] \<longrightarrow>
            (\<exists>s. map_of vs (latest_version vs) = Some s
               \<and> ReadTree R dir 0 prefix =
                   (''Got version: '' @ fmt_d (latest_version vs) @ ''\<newline>'',
                    Some \<lparr>versions = vs, working = s\<rparr>, None))
            \<and> ReadTree R dir 0 prefix = ReadTree R dir (latest_version vs) prefix"
  proof
    assume ne: "vs \<noteq> []"
    obtain s where s: "map_of vs (latest_version vs) = Some s"
      using map_of_committed [OF latest_version_mem [OF ne]] by blast
    have zero: "ReadTree R dir 0 prefix =
        (''Got version: '' @ fmt_d (latest_version vs) @ ''\<newline>'',
         Some \<lparr>versions = vs, working = s\<rparr>, None)"
      using ne s by (simp add: rt LoadVersion_def)
    have expl: "ReadTree R dir (latest_version vs) prefix =
        (''Got version: '' @ fmt_d (latest_version vs) @ ''\<newline>'',
         Some \<lparr>versions = vs, working = s\<rparr>, None)"
    proof (cases "latest_version vs = 0")
      case True
      then show ?thesis using zero by simp
    next
      case False
      then show ?thesis using s by (simp add: rt LoadVersion_def)
    qed
    show "(\<exists>s. map_of vs (latest_version vs) = Some s
               \<and> ReadTree R dir 0 prefix =
                   (''Got version: '' @ fmt_d (latest_version vs) @ ''\<newline>'',
                    Some \<lparr>versions = vs, working = s\<rparr>, None))
            \<and> ReadTree R dir 0 prefix = ReadTree R dir (latest_version vs) prefix"
      using s zero expl by simp
  qed
  have missing: "v \<noteq> 0 \<and> v \<notin> fst ` set vs \<longrightarrow>
              (\<exists>shown t e. ReadTree R dir v prefix = (shown, t, Some e))"
    using map_of_missing [of v vs] by (auto simp: rt LoadVersion_def)
  show ?thesis
    using latest missing latest_version_mem [of vs] latest_version_greatest [of _ vs] by blast
qed

theorem ReadTree_latest_and_missing_witness:
  "fst (OpenDB (\<lambda>name dir. Inr \<lparr>trees = (\<lambda>p. if p = ''s/k:bank/''
          then Inr [(1, \<lparr>entries = [(''k1'', ''v1'')], height = 0\<rparr>),
                    (2, \<lparr>entries = [(''k1'', ''v1''), (''k2'', ''v2'')], height = 1\<rparr>)]
          else Inr [])\<rparr>) ''/data/application.db'')
     = Inr \<lparr>trees = (\<lambda>p. if p = ''s/k:bank/''
          then Inr [(1, \<lparr>entries = [(''k1'', ''v1'')], height = 0\<rparr>),
                    (2, \<lparr>entries = [(''k1'', ''v1''), (''k2'', ''v2'')], height = 1\<rparr>)]
          else Inr [])\<rparr>
   \<and> ReadTree (\<lambda>name dir. Inr \<lparr>trees = (\<lambda>p. if p = ''s/k:bank/''
          then Inr [(1, \<lparr>entries = [(''k1'', ''v1'')], height = 0\<rparr>),
                    (2, \<lparr>entries = [(''k1'', ''v1''), (''k2'', ''v2'')], height = 1\<rparr>)]
          else Inr [])\<rparr>) ''/data/application.db'' 0 ''s/k:bank/''
     = (''Got version: 2\<newline>'',
        Some \<lparr>versions = [(1, \<lparr>entries = [(''k1'', ''v1'')], height = 0\<rparr>),
                    (2, \<lparr>entries = [(''k1'', ''v1''), (''k2'', ''v2'')], height = 1\<rparr>)],
              working = \<lparr>entries = [(''k1'', ''v1''), (''k2'', ''v2'')], height = 1\<rparr>\<rparr>, None)
   \<and> (\<exists>shown t e. ReadTree (\<lambda>name dir. Inr \<lparr>trees = (\<lambda>p. if p = ''s/k:bank/''
          then Inr [(1, \<lparr>entries = [(''k1'', ''v1'')], height = 0\<rparr>),
                    (2, \<lparr>entries = [(''k1'', ''v1''), (''k2'', ''v2'')], height = 1\<rparr>)]
          else Inr [])\<rparr>) ''/data/application.db'' 3 ''s/k:bank/'' = (shown, t, Some e))"
  using ReadTree_latest_and_missing
    [of "\<lambda>name dir. Inr \<lparr>trees = (\<lambda>p. if p = ''s/k:bank/''
          then Inr [(1, \<lparr>entries = [(''k1'', ''v1'')], height = 0\<rparr>),
                    (2, \<lparr>entries = [(''k1'', ''v1''), (''k2'', ''v2'')], height = 1\<rparr>)]
          else Inr [])\<rparr>"
        "''/data/application.db''"
        "\<lparr>trees = (\<lambda>p. if p = ''s/k:bank/''
          then Inr [(1, \<lparr>entries = [(''k1'', ''v1'')], height = 0\<rparr>),
                    (2, \<lparr>entries = [(''k1'', ''v1''), (''k2'', ''v2'')], height = 1\<rparr>)]
          else Inr [])\<rparr>"
        "''s/k:bank/''"
        "[(1, \<lparr>entries = [(''k1'', ''v1'')], height = 0\<rparr>),
          (2, \<lparr>entries = [(''k1'', ''v1''), (''k2'', ''v2'')], height = 1\<rparr>)]"
        3]
  by (simp add: OpenDB_def HasSuffix_def Let_def latest_version_def fmt_d_def dec_nat.simps)

section \<open>The statistics aggregator\<close>

lemma fmt_d_19: "fmt_d 19 = ''19''"
  by (simp add: fmt_d_def dec_nat.simps)

lemma length_modules: "length modules = 19"
  by (simp add: modules_def)

lemma ReadTree_tree:
  "ReadTree R dir version prefix = (shown, tree, None) \<Longrightarrow> \<exists>t. tree = Some t"
  by (auto simp: ReadTree_def Let_def split: sum.splits prod.splits)

lemma loop_failed_module:
  assumes "ReadTree R dbpath version (''s/k:'' @ m @ ''/'') = (shown, tree, Some e)"
  shows "PrintStatistics_loop R dbpath version idx (m # rest) c =
     PrintStatistics_loop R dbpath version (idx + 1) rest
       (c\<lparr>stdout := stdout c @ shown, stderr := stderr c @ error_report m e\<rparr>)"
  using assms by (simp add: error_report_def)

lemma loop_loaded_module:
  assumes "ReadTree R dbpath version (''s/k:'' @ m @ ''/'') = (shown, Some t, None)"
    and "PrintKeysWithValueSize t = (body, None)"
  shows "PrintStatistics_loop R dbpath version idx (m # rest) c =
     PrintStatistics_loop R dbpath version (idx + 1) rest
       (c\<lparr>stdout := stdout c @ shown @ ''iterating over '' @ m @ ''  ('' @ fmt_d (idx + 1)
            @ ''/19)\<newline>'' @ ''tree size:'' @ fmt_d (Size t) @ '' height:''
            @ fmt_d (Height t) @ ''\<newline>'' @ body @ ''\<newline>''\<rparr>)"
  using assms by (simp add: length_modules fmt_d_19)

lemma loop_panicking_module:
  assumes "ReadTree R dbpath version (''s/k:'' @ m @ ''/'') = (shown, Some t, None)"
    and "PrintKeysWithValueSize t = (body, Some p)"
  shows "snd (PrintStatistics_loop R dbpath version idx (m # rest) c) = Some p"
  using assms by simp

lemma loop_cases:
  obtains (failed) shown tree e where
      "ReadTree R dbpath version (''s/k:'' @ m @ ''/'') = (shown, tree, Some e)"
    | (loaded) shown t body where
      "ReadTree R dbpath version (''s/k:'' @ m @ ''/'') = (shown, Some t, None)"
      "PrintKeysWithValueSize t = (body, None)"
    | (panicked) shown t body p where
      "ReadTree R dbpath version (''s/k:'' @ m @ ''/'') = (shown, Some t, None)"
      "PrintKeysWithValueSize t = (body, Some p)"
proof -
  obtain shown tree err where rt: "ReadTree R dbpath version (''s/k:'' @ m @ ''/'') = (shown, tree, err)"
    by (cases "ReadTree R dbpath version (''s/k:'' @ m @ ''/'')") auto
  show thesis
  proof (cases err)
    case (Some e)
    then show thesis using rt failed by simp
  next
    case None
    then obtain t where t: "tree = Some t" using ReadTree_tree rt by blast
    obtain body p where pk: "PrintKeysWithValueSize t = (body, p)"
      by (cases "PrintKeysWithValueSize t") auto
    show thesis
    proof (cases p)
      case None
      then show thesis using rt \<open>err = None\<close> t pk loaded by simp
    next
      case (Some q)
      then show thesis using rt \<open>err = None\<close> t pk panicked by simp
    qed
  qed
qed

lemma loop_normal_run:
  "PrintStatistics_loop R dbpath version idx ms c = (c', None) \<Longrightarrow>
   stderr c' = stderr c @ concat (map (module_errors R dbpath version) ms)
   \<and> stdout c' = stdout c @ module_reports R dbpath version idx ms"
proof (induction ms arbitrary: idx c)
  case Nil
  then show ?case by simp
next
  case (Cons m ms)
  show ?case
  proof (cases rule: loop_cases [of R dbpath version m])
    case (failed shown tree e)
    let ?c = "(c\<lparr>stdout := stdout c @ shown, stderr := stderr c @ error_report m e\<rparr>)"
    have "PrintStatistics_loop R dbpath version (idx + 1) ms ?c = (c', None)"
      using Cons.prems loop_failed_module [OF failed] by simp
    from Cons.IH [OF this] show ?thesis
      using failed by (simp add: module_errors_def module_report_def module_prefix_def)
  next
    case (loaded shown t body)
    let ?c = "c\<lparr>stdout := stdout c @ shown @ ''iterating over '' @ m @ ''  ('' @ fmt_d (idx + 1)
            @ ''/19)\<newline>'' @ ''tree size:'' @ fmt_d (Size t) @ '' height:''
            @ fmt_d (Height t) @ ''\<newline>'' @ body @ ''\<newline>''\<rparr>"
    have "PrintStatistics_loop R dbpath version (idx + 1) ms ?c = (c', None)"
      using Cons.prems loop_loaded_module [OF loaded] by simp
    from Cons.IH [OF this] show ?thesis
      using loaded by (simp add: module_errors_def module_report_def module_prefix_def)
  next
    case (panicked shown t body p)
    then show ?thesis using Cons.prems loop_panicking_module [OF panicked, of idx ms c] by simp
  qed
qed

lemma loop_abort:
  "PrintStatistics_loop R dbpath version idx ms c = (c', Some p) \<Longrightarrow>
   \<exists>m \<in> set ms. \<exists>shown t body.
      ReadTree R dbpath version (''s/k:'' @ m @ ''/'') = (shown, Some t, None)
      \<and> PrintKeysWithValueSize t = (body, Some p)"
proof (induction ms arbitrary: idx c)
  case Nil
  then show ?case by simp
next
  case (Cons m ms)
  show ?case
  proof (cases rule: loop_cases [of R dbpath version m])
    case (failed shown tree e)
    let ?c = "(c\<lparr>stdout := stdout c @ shown, stderr := stderr c @ error_report m e\<rparr>)"
    have "PrintStatistics_loop R dbpath version (idx + 1) ms ?c = (c', Some p)"
      using Cons.prems loop_failed_module [OF failed] by simp
    from Cons.IH [OF this] show ?thesis by auto
  next
    case (loaded shown t body)
    let ?c = "c\<lparr>stdout := stdout c @ shown @ ''iterating over '' @ m @ ''  ('' @ fmt_d (idx + 1)
            @ ''/19)\<newline>'' @ ''tree size:'' @ fmt_d (Size t) @ '' height:''
            @ fmt_d (Height t) @ ''\<newline>'' @ body @ ''\<newline>''\<rparr>"
    have "PrintStatistics_loop R dbpath version (idx + 1) ms ?c = (c', Some p)"
      using Cons.prems loop_loaded_module [OF loaded] by simp
    from Cons.IH [OF this] show ?thesis by auto
  next
    case (panicked shown t body q)
    have "q = p" using Cons.prems loop_panicking_module [OF panicked, of idx ms c] by simp
    then show ?thesis using panicked by auto
  qed
qed

lemma ReadTree_no_database:
  "ReadTree no_database ''/data/application.db'' 0 prefix = ([], None, Some (LibError ''no such database''))"
  by (simp add: ReadTree_def OpenDB_def HasSuffix_def Let_def no_database_def)

lemma ReadTree_empty_snapshots:
  "ReadTree empty_snapshots ''/data/application.db'' 0 prefix =
     (''Got version: 1\<newline>'',
      Some \<lparr>versions = [(1, \<lparr>entries = [], height = 0\<rparr>)], working = \<lparr>entries = [], height = 0\<rparr>\<rparr>,
      None)"
  by (cases "prefix = []")
     (simp_all add: ReadTree_def OpenDB_def HasSuffix_def Let_def empty_snapshots_def
       NewMutableTree_def NewPrefixDB_def LoadVersion_def latest_version_def fmt_d_def dec_nat.simps)

text \<open>
  Claim C8. \<^verbatim>\<open>PrintStatistics\<close> visits the modules of the catalog in order, each under the
  prefix \<^verbatim>\<open>s/k:<module>/\<close>. When \<^verbatim>\<open>ReadTree\<close> fails for a module, the error is reported on
  standard error and the loop goes on with the next module. A run that ends normally has
  reported every failed module, in catalog order, and printed every loaded one; a run is
  cut short only by a panic in the traversal of a module that did load; when every module
  fails to load the run ends normally.
\<close>

theorem PrintStatistics_module_failures:
  "(ReadTree R dbpath version (''s/k:'' @ m @ ''/'') = (shown, tree, Some e) \<longrightarrow>
      PrintStatistics_loop R dbpath version idx (m # rest) c0 =
        PrintStatistics_loop R dbpath version (idx + 1) rest
          (c0\<lparr>stdout := stdout c0 @ shown, stderr := stderr c0 @ error_report m e\<rparr>))
   \<and> (PrintStatistics R dbpath version = (c, None) \<longrightarrow>
        stderr c = concat (map (module_errors R dbpath version) modules)
        \<and> stdout c = module_reports R dbpath version 0 modules)
   \<and> (PrintStatistics R dbpath version = (c, Some p) \<longrightarrow>
        (\<exists>m \<in> set modules. \<exists>shown t body.
            ReadTree R dbpath version (''s/k:'' @ m @ ''/'') = (shown, Some t, None)
            \<and> PrintKeysWithValueSize t = (body, Some p)))
   \<and> ((\<forall>m \<in> set modules. \<exists>shown t e.
          ReadTree R dbpath version (''s/k:'' @ m @ ''/'') = (shown, t, Some e)) \<longrightarrow>
        (\<exists>c'. PrintStatistics R dbpath version = (c', None)))"
proof -
  have step: "ReadTree R dbpath version (''s/k:'' @ m @ ''/'') = (shown, tree, Some e) \<longrightarrow>
      PrintStatistics_loop R dbpath version idx (m # rest) c0 =
        PrintStatistics_loop R dbpath version (idx + 1) rest
          (c0\<lparr>stdout := stdout c0 @ shown, stderr := stderr c0 @ error_report m e\<rparr>)"
    using loop_failed_module [of R dbpath version m shown tree e idx rest c0] by blast
  have normal: "PrintStatistics R dbpath version = (c, None) \<longrightarrow>
        stderr c = concat (map (module_errors R dbpath version) modules)
        \<and> stdout c = module_reports R dbpath version 0 modules"
    using loop_normal_run [of R dbpath version 0 modules "\<lparr>stdout = [], stderr = []\<rparr>" c]
    by (simp add: PrintStatistics_def)
  have abort: "\<And>c p. PrintStatistics R dbpath version = (c, Some p) \<Longrightarrow>
        (\<exists>m \<in> set modules. \<exists>shown t body.
            ReadTree R dbpath version (''s/k:'' @ m @ ''/'') = (shown, Some t, None)
            \<and> PrintKeysWithValueSize t = (body, Some p))"
    unfolding PrintStatistics_def by (rule loop_abort)
  have allfail: "(\<forall>m \<in> set modules. \<exists>shown t e.
          ReadTree R dbpath version (''s/k:'' @ m @ ''/'') = (shown, t, Some e)) \<longrightarrow>
        (\<exists>c'. PrintStatistics R dbpath version = (c', None))"
  proof
    assume all: "\<forall>m \<in> set modules. \<exists>shown t e.
          ReadTree R dbpath version (''s/k:'' @ m @ ''/'') = (shown, t, Some e)"
    obtain c' r where res: "PrintStatistics R dbpath version = (c', r)"
      by (cases "PrintStatistics R dbpath version") auto
    have "r = None"
    proof (cases r)
      case None
      then show ?thesis .
    next
      case (Some q)
      with res abort [of c' q] all show ?thesis by fastforce
    qed
    with res show "\<exists>c'. PrintStatistics R dbpath version = (c', None)" by blast
  qed
  show ?thesis using step normal abort [of c p] allfail by blast
qed

theorem PrintStatistics_module_failures_witness:
  "ReadTree no_database ''/data/application.db'' 0 (''s/k:'' @ ''capability'' @ ''/'')
      = ([], None, Some (LibError ''no such database''))
   \<and> PrintStatistics_loop no_database ''/data/application.db'' 0 0 (''capability'' # tl modules)
        \<lparr>stdout = [], stderr = []\<rparr>
      = PrintStatistics_loop no_database ''/data/application.db'' 0 (0 + 1) (tl modules)
          (\<lparr>stdout = [], stderr = []\<rparr>\<lparr>stdout := stdout \<lparr>stdout = [], stderr = []\<rparr> @ [],
             stderr := stderr \<lparr>stdout = [], stderr = []\<rparr>
                         @ error_report ''capability'' (LibError ''no such database'')\<rparr>)
   \<and> list_all (\<lambda>m. \<exists>shown t e.
          ReadTree no_database ''/data/application.db'' 0 (''s/k:'' @ m @ ''/'') = (shown, t, Some e))
        modules
   \<and> (\<exists>c'. PrintStatistics no_database ''/data/application.db'' 0 = (c', None)
          \<and> stderr c' = concat (map (\<lambda>m. error_report m (LibError ''no such database'')) modules))
   \<and> (\<exists>c. PrintStatistics empty_snapshots ''/data/application.db'' 0 = (c, Some DivideByZero))
   \<and> (\<exists>m \<in> set modules. \<exists>shown t body.
          ReadTree empty_snapshots ''/data/application.db'' 0 (''s/k:'' @ m @ ''/'') = (shown, Some t, None)
          \<and> PrintKeysWithValueSize t = (body, Some DivideByZero))"
proof -
  let ?d = "''/data/application.db''"
  have all: "\<forall>m \<in> set modules. \<exists>shown t e.
          ReadTree no_database ?d 0 (''s/k:'' @ m @ ''/'') = (shown, t, Some e)"
    by (simp add: ReadTree_no_database)
  have rt: "ReadTree no_database ?d 0 (''s/k:'' @ ''capability'' @ ''/'')
      = ([], None, Some (LibError ''no such database''))"
    by (rule ReadTree_no_database)
  obtain c' where c': "PrintStatistics no_database ?d 0 = (c', None)"
    using PrintStatistics_module_failures [of no_database ?d 0] all by blast
  have errs: "stderr c' = concat (map (module_errors no_database ?d 0) modules)"
    using PrintStatistics_module_failures [of no_database ?d 0 _ _ _ _ _ _ _ c'] c' by blast
  have me: "module_errors no_database ?d 0 = (\<lambda>m. error_report m (LibError ''no such database''))"
    by (rule ext) (simp add: module_errors_def ReadTree_no_database)
  have step: "PrintStatistics_loop no_database ?d 0 0 (''capability'' # tl modules)
        \<lparr>stdout = [], stderr = []\<rparr>
      = PrintStatistics_loop no_database ?d 0 (0 + 1) (tl modules)
          (\<lparr>stdout = [], stderr = []\<rparr>\<lparr>stdout := stdout \<lparr>stdout = [], stderr = []\<rparr> @ [],
             stderr := stderr \<lparr>stdout = [], stderr = []\<rparr>
                         @ error_report ''capability'' (LibError ''no such database'')\<rparr>)"
    using PrintStatistics_module_failures
      [of no_database ?d 0 "''capability''" "[]" None "LibError ''no such database''" 0
          "tl modules" "\<lparr>stdout = [], stderr = []\<rparr>"] rt
    by blast
  have pk: "PrintKeysWithValueSize
      \<lparr>versions = [(1, \<lparr>entries = [], height = 0\<rparr>)], working = \<lparr>entries = [], height = 0\<rparr>\<rparr>
      = (''Printing all keys with hashed values (to detect diff)\<newline>''
           @ ''0 keys, keySizeTotal: 0, valueSizeTotal: 0\<newline>'', Some DivideByZero)"
    by (simp add: PrintKeysWithValueSize_def Iterate_def checked_quo_def fmt_d_def dec_nat.simps)
  have "snd (PrintStatistics empty_snapshots ?d 0) = Some DivideByZero"
    unfolding PrintStatistics_def modules_def
    by (rule loop_panicking_module [OF ReadTree_empty_snapshots pk])
  then obtain c where c: "PrintStatistics empty_snapshots ?d 0 = (c, Some DivideByZero)"
    by (cases "PrintStatistics empty_snapshots ?d 0") auto
  have cause: "\<exists>m \<in> set modules. \<exists>shown t body.
          ReadTree empty_snapshots ?d 0 (''s/k:'' @ m @ ''/'') = (shown, Some t, None)
          \<and> PrintKeysWithValueSize t = (body, Some DivideByZero)"
    using PrintStatistics_module_failures [of empty_snapshots ?d 0 _ _ _ _ _ _ _ c DivideByZero] c
    by blast
  show ?thesis using rt step all c' errs me c cause by (auto simp: list_all_iff)
qed

section \<open>The command line\<close>

lemma ReadTree_bank_store:
  "ReadTree bank_store ''/data/application.db'' 0 ''s/k:bank/''
     = (''Got version: 2\<newline>'',
        Some \<lparr>versions = [(1, \<lparr>entries = [(''k1'', ''v1'')], height = 0\<rparr>),
                    (2, \<lparr>entries = [(''k1'', ''v1''), (''k2'', ''v2'')], height = 1\<rparr>)],
              working = \<lparr>entries = [(''k1'', ''v1''), (''k2'', ''v2'')], height = 1\<rparr>\<rparr>, None)"
  by (simp add: ReadTree_def OpenDB_def HasSuffix_def Let_def bank_store_def
      NewMutableTree_def NewPrefixDB_def LoadVersion_def latest_version_def fmt_d_def dec_nat.simps)

lemma ReadTree_bank_store_1:
  "ReadTree bank_store ''/data/application.db'' 1 ''s/k:bank/''
     = (''Got version: 1\<newline>'',
        Some \<lparr>versions = [(1, \<lparr>entries = [(''k1'', ''v1'')], height = 0\<rparr>),
                    (2, \<lparr>entries = [(''k1'', ''v1''), (''k2'', ''v2'')], height = 1\<rparr>)],
              working = \<lparr>entries = [(''k1'', ''v1'')], height = 0\<rparr>\<rparr>, None)"
  by (simp add: ReadTree_def OpenDB_def HasSuffix_def Let_def bank_store_def
      NewMutableTree_def NewPrefixDB_def LoadVersion_def latest_version_def fmt_d_def dec_nat.simps)

lemma Atoi_1: "Atoi ''1'' = Inr 1"
  by (simp add: Atoi_def is_digit_def)

lemma Atoi_x: "Atoi ''x'' = Inl (ErrSyntax ''x'')"
  by (simp add: Atoi_def is_digit_def)

text \<open>
  What \<^verbatim>\<open>main\<close> does by design with arguments it cannot use: fewer than three arguments
  or an unknown command print the usage text and exit with status 1; a version that
  \<^verbatim>\<open>strconv.Atoi\<close> rejects and a tree that cannot be read print an error and exit with
  status 1; an address that is not hexadecimal ends in \<^verbatim>\<open>panic(err)\<close>.
\<close>

lemma main_usage_exit:
  "length args < 3 \<or> args ! 0 \<notin> {''data'', ''shape'', ''versions'', ''balance'', ''nonce'', ''stastistics''}
   \<Longrightarrow> main_go R args = (\<lparr>stdout = [], stderr = usage\<rparr>, Exit 1)"
  by (auto simp: main_go_def)

lemma main_usage_exit_witness:
  "main_go bank_store [''data'', ''/data/application.db''] = (\<lparr>stdout = [], stderr = usage\<rparr>, Exit 1)
   \<and> main_go bank_store [''statistics'', ''/data/application.db'', ''s/k:bank/'']
        = (\<lparr>stdout = [], stderr = usage\<rparr>, Exit 1)"
  using main_usage_exit [of "[''data'', ''/data/application.db'']" bank_store]
    main_usage_exit [of "[''statistics'', ''/data/application.db'', ''s/k:bank/'']" bank_store]
  by simp

lemma main_invalid_version_exit:
  "length args \<ge> 4 \<Longrightarrow>
   args ! 0 \<in> {''data'', ''shape'', ''versions'', ''balance'', ''nonce'', ''stastistics''} \<Longrightarrow>
   Atoi (args ! 3) = Inl err \<Longrightarrow>
   main_go R args =
     (\<lparr>stdout = [], stderr = [Text ''Invalid version number: '', ErrorText err, Text ''\<newline>'']\<rparr>,
      Exit 1)"
  by (auto simp: main_go_def)

lemma main_invalid_version_exit_witness:
  "Atoi ''x'' = Inl (ErrSyntax ''x'')
   \<and> main_go bank_store [''data'', ''/data/application.db'', ''s/k:bank/'', ''x''] =
     (\<lparr>stdout = [],
       stderr = [Text ''Invalid version number: '', ErrorText (ErrSyntax ''x''), Text ''\<newline>'']\<rparr>,
      Exit 1)"
  using Atoi_x
    main_invalid_version_exit [of "[''data'', ''/data/application.db'', ''s/k:bank/'', ''x'']"
      "ErrSyntax ''x''" bank_store]
  by simp

lemma main_read_error_exit:
  "length args \<ge> 3 \<Longrightarrow>
   args ! 0 \<in> {''data'', ''shape'', ''versions'', ''balance'', ''nonce''} \<Longrightarrow>
   (if length args \<ge> 4 then Atoi (args ! 3) else Inr 0) = Inr version \<Longrightarrow>
   ReadTree R (args ! 1) version (args ! 2) = (shown, tree, Some err) \<Longrightarrow>
   main_go R args =
     (\<lparr>stdout = shown, stderr = [Text ''Error reading data: '', ErrorText err, Text ''\<newline>'']\<rparr>,
      Exit 1)"
  by (auto simp: main_go_def)

lemma main_read_error_exit_witness:
  "ReadTree no_database ''/data/application.db'' 0 ''s/k:bank/''
      = ([], None, Some (LibError ''no such database''))
   \<and> main_go no_database [''data'', ''/data/application.db'', ''s/k:bank/''] =
     (\<lparr>stdout = [],
       stderr = [Text ''Error reading data: '', ErrorText (LibError ''no such database''),
                 Text ''\<newline>'']\<rparr>,
      Exit 1)"
  using ReadTree_no_database [of "''s/k:bank/''"]
    main_read_error_exit [of "[''data'', ''/data/application.db'', ''s/k:bank/'']" 0 no_database
      "[]" None "LibError ''no such database''"]
  by simp

lemma main_invalid_address_panics:
  "cmd = ''balance'' \<or> cmd = ''nonce'' \<Longrightarrow> Atoi ver = Inr n \<Longrightarrow>
   ReadTree R dir n prefix = (shown, tree, None) \<Longrightarrow> DecodeString addr = Inl err \<Longrightarrow>
   main_go R (cmd # dir # prefix # ver # addr # others)
     = (\<lparr>stdout = shown, stderr = []\<rparr>, Panicked (PanicError err))"
  by (auto simp: main_go_def dispatch_def address_arg_def)

lemma main_invalid_address_panics_witness:
  "Atoi ''1'' = Inr 1 \<and> DecodeString ''zz'' = Inl (InvalidByteError CHR ''z'')
   \<and> main_go bank_store [''balance'', ''/data/application.db'', ''s/k:bank/'', ''1'', ''zz'']
     = (\<lparr>stdout = ''Got version: 1\<newline>'', stderr = []\<rparr>,
        Panicked (PanicError (InvalidByteError CHR ''z'')))"
proof -
  have d: "DecodeString ''zz'' = Inl (InvalidByteError CHR ''z'')"
    by (simp add: fromHexChar_def)
  show ?thesis
    using d Atoi_1 ReadTree_bank_store_1
      main_invalid_address_panics [of "''balance''" "''1''" 1 bank_store "''/data/application.db''"
        "''s/k:bank/''" _ _ "''zz''" "InvalidByteError CHR ''z''" "[]"]
    by simp
qed

text \<open>
  Claim C4 says that every invocation with missing or invalid arguments, a missing address
  for \<^verbatim>\<open>balance\<close> and \<^verbatim>\<open>nonce\<close> included, exits with status 1 after a message. The code reads
  \<^verbatim>\<open>args[4]\<close> without a test of \<^verbatim>\<open>len(args)\<close>: with three arguments, or four with a valid
  version, and a tree that loads, \<^verbatim>\<open>balance\<close> and \<^verbatim>\<open>nonce\<close> end in the runtime panic for an
  index out of range, with nothing on standard error.
\<close>

theorem main_missing_address_panics:
  "((cmd = ''balance'' \<or> cmd = ''nonce'') \<and> ReadTree R dir 0 prefix = (shown, tree, None) \<longrightarrow>
      main_go R [cmd, dir, prefix]
        = (\<lparr>stdout = shown, stderr = []\<rparr>, Panicked (IndexOutOfRange 4 3)))
   \<and> ((cmd = ''balance'' \<or> cmd = ''nonce'') \<and> Atoi ver = Inr n
        \<and> ReadTree R dir n prefix = (shown', tree', None) \<longrightarrow>
      main_go R [cmd, dir, prefix, ver]
        = (\<lparr>stdout = shown', stderr = []\<rparr>, Panicked (IndexOutOfRange 4 4)))"
  by (auto simp: main_go_def dispatch_def address_arg_def)

theorem main_missing_address_panics_witness:
  "ReadTree bank_store ''/data/application.db'' 0 ''s/k:bank/''
     = (''Got version: 2\<newline>'',
        Some \<lparr>versions = [(1, \<lparr>entries = [(''k1'', ''v1'')], height = 0\<rparr>),
                    (2, \<lparr>entries = [(''k1'', ''v1''), (''k2'', ''v2'')], height = 1\<rparr>)],
              working = \<lparr>entries = [(''k1'', ''v1''), (''k2'', ''v2'')], height = 1\<rparr>\<rparr>, None)
   \<and> main_go bank_store [''balance'', ''/data/application.db'', ''s/k:bank/'']
        = (\<lparr>stdout = ''Got version: 2\<newline>'', stderr = []\<rparr>, Panicked (IndexOutOfRange 4 3))
   \<and> Atoi ''1'' = Inr 1
   \<and> main_go bank_store [''nonce'', ''/data/application.db'', ''s/k:bank/'', ''1'']
        = (\<lparr>stdout = ''Got version: 1\<newline>'', stderr = []\<rparr>, Panicked (IndexOutOfRange 4 4))"
  using ReadTree_bank_store ReadTree_bank_store_1 Atoi_1
    main_missing_address_panics [of "''balance''" bank_store "''/data/application.db''" "''s/k:bank/''" _ _ "''1''" 1]
    main_missing_address_panics [of "''nonce''" bank_store "''/data/application.db''" "''s/k:bank/''" _ _ "''1''" 1]
  by simp

end
